theory Spec2Isabelle
  imports Complex_Main "HOL-Library.Word" "HOL-Library.Signed_Division" "HOL-Library.Log_Nat"
begin

unbundle bit_operations_syntax

section \<open>Values shared by the upload and the serving pipeline\<close>

type_synonym byte = "8 word"

text \<open>
  Go errors are values. The constructors are the sentinels the handlers can meet
  (\<open>io.EOF\<close>, \<open>io.ErrUnexpectedEOF\<close>, \<open>io.ErrShortWrite\<close>, the error of
  \<open>http.MaxBytesReader\<close>, \<open>database.ErrNoResults\<close>, \<open>os.ErrNotExist\<close>), an
  error made by \<open>errors.New\<close>, and \<open>fmt.Errorf("...: %w", err)\<close>, which wraps.
\<close>

datatype error =
    EOF
  | ErrUnexpectedEOF
  | ErrShortWrite
  | ErrBodyTooLarge
  | ErrNoResults
  | ErrNotExist
  | ErrNew string
  | Wrapf string error

text \<open>\<open>errors.Is\<close> walks the chain of wrapped errors.\<close>

fun errors_Is :: "error \<Rightarrow> error \<Rightarrow> bool" where
  "errors_Is (Wrapf m e) target = (Wrapf m e = target \<or> errors_Is e target)"
| "errors_Is e target = (e = target)"

text \<open>
  \<open>database.Entry\<close>. Instants (\<open>time.Time\<close>) are integers, the nanoseconds since
  the epoch; \<open>Lifetime\<close> is a \<open>*time.Time\<close>, \<open>None\<close> for nil. \<open>Size\<close> is an int64.
\<close>

record Entry =
  Slug :: string
  Name :: string
  Sum :: string
  Size :: int
  Timestamp :: int
  Lifetime :: "int option"

text \<open>
  \<open>Server\<close>: the configuration. \<open>Lifetime\<close> is a \<open>time.Duration\<close> (nanoseconds) and
  \<open>Limit\<close> an int64.
\<close>

record Server =
  srv_Lifetime :: int
  srv_Limit :: int
  srv_PublicPath :: string

text \<open>
  The packages the handlers import and that are no part of this repository: the BLAKE3
  digest, the \<open>mimetype\<close> sniffer (its MIME values are of type \<open>'m\<close>), the extension table
  of package \<open>mime\<close>, \<open>url.PathEscape\<close>, the verb \<open>%q\<close> of \<open>fmt\<close>, \<open>strconv.Quote\<close>
  and \<open>Time.Format(http.TimeFormat)\<close>. They are parameters of the model.
\<close>

record 'm lib =
  blake3_Sum :: "byte list \<Rightarrow> byte list"
  mimetype_Detect :: "byte list \<Rightarrow> 'm"
  mime_Is :: "'m \<Rightarrow> string \<Rightarrow> bool"
  mime_String :: "'m \<Rightarrow> string"
  mime_TypeByExtension :: "string \<Rightarrow> string"
  url_PathEscape :: "string \<Rightarrow> string"
  fmt_q :: "string \<Rightarrow> string"
  strconv_Quote :: "string \<Rightarrow> string"
  Format_TimeFormat :: "int \<Rightarrow> string"

text \<open>
  What a handler does to its \<open>http.ResponseWriter\<close>, in order. The text of
  \<open>http.Error(w, err.Error(), code)\<close> is kept as the error it is printed from.
\<close>

datatype message = Lit string | ErrorOf error

datatype wcall =
    Header_Set string string
  | http_Error message nat
  | http_Redirect string nat
  | io_WriteString string

section \<open>\<open>base64.RawURLEncoding\<close>\<close>

definition encodeURL :: string where
  "encodeURL = ''ABCDEFGHIJKLMNOPQRSTUVWXYZabcdefghijklmnopqrstuvwxyz0123456789-_''"

definition enc :: "64 word \<Rightarrow> char" where
  "enc v = encodeURL ! unat (v AND 0x3F)"

text \<open>
  \<open>Encoding.EncodeToString\<close> without padding: three bytes give four characters, a rest of
  one byte gives two and a rest of two bytes gives three.
\<close>

fun EncodeToString :: "byte list \<Rightarrow> string" where
  "EncodeToString (a # b # c # rest) =
     (let val = push_bit 16 (ucast a) OR push_bit 8 (ucast b) OR ucast c
      in enc (drop_bit 18 val) # enc (drop_bit 12 val) # enc (drop_bit 6 val) # enc val
         # EncodeToString rest)"
| "EncodeToString [a, b] =
     (let val = push_bit 16 (ucast a) OR push_bit 8 (ucast b)
      in [enc (drop_bit 18 val), enc (drop_bit 12 val), enc (drop_bit 6 val)])"
| "EncodeToString [a] =
     (let val = push_bit 16 (ucast a)
      in [enc (drop_bit 18 val), enc (drop_bit 12 val)])"
| "EncodeToString [] = []"

section \<open>Names and paths\<close>

text \<open>
  \<open>filepath.Ext\<close>: the suffix that begins at the last dot of the last element of the
  path, empty when that element has no dot. The scan runs from the end and stops at a
  separator.
\<close>

fun Ext_scan :: "string \<Rightarrow> string \<Rightarrow> string" where
  "Ext_scan [] acc = []"
| "Ext_scan (c # rev_front) acc =
     (if c = CHR ''/'' then []
      else if c = CHR ''.'' then c # acc
      else Ext_scan rev_front (c # acc))"

definition filepath_Ext :: "string \<Rightarrow> string" where
  "filepath_Ext path = Ext_scan (rev path) []"

section \<open>Readers and writers\<close>

text \<open>
  A reader that is read front to back is the bytes it will deliver and the error that
  follows them (\<open>EOF\<close> at a regular end). \<open>io.ReadFull\<close> fills a buffer of \<open>n\<close> bytes
  from it: the error is nil when the buffer was filled, \<open>ErrUnexpectedEOF\<close> when the
  reader ended after some bytes, and the reader's own error otherwise.
\<close>

type_synonym reader = "byte list \<times> error"

definition io_ReadFull :: "nat \<Rightarrow> reader \<Rightarrow> byte list \<times> error option" where
  "io_ReadFull n r =
     (let (data, err) = r
      in if n \<le> length data then (take n data, None)
         else if err = EOF \<and> data \<noteq> [] then (data, Some ErrUnexpectedEOF)
         else (data, Some err))"

text \<open>
  The writer end of the pipe into the blob store: the bytes written so far and, when the
  store fails, the number of bytes after which a write returns the error. A write that
  crosses that point is short.
\<close>

record sink =
  written :: "byte list"
  sink_fault :: "(nat \<times> error) option"

definition sink_Write :: "sink \<Rightarrow> byte list \<Rightarrow> sink \<times> nat \<times> error option" where
  "sink_Write w p =
     (case sink_fault w of
        None \<Rightarrow> (w\<lparr>written := written w @ p\<rparr>, length p, None)
      | Some (k, e) \<Rightarrow>
          if length (written w) + length p \<le> k
          then (w\<lparr>written := written w @ p\<rparr>, length p, None)
          else (let room = k - length (written w)
                in (w\<lparr>written := written w @ take room p\<rparr>, room, Some e)))"

text \<open>
  The incremental hasher \<open>blake3.New()\<close>: its state is the bytes absorbed, \<open>Write\<close>
  never fails, and \<open>Sum(nil)\<close> is the digest of everything written.
\<close>

type_synonym hasher = "byte list"

definition blake3_New :: hasher where
  "blake3_New = []"

definition hasher_Write :: "hasher \<Rightarrow> byte list \<Rightarrow> hasher" where
  "hasher_Write h p = h @ p"

definition hasher_Sum :: "'m lib \<Rightarrow> hasher \<Rightarrow> byte list" where
  "hasher_Sum L h = blake3_Sum L h"

text \<open>
  \<open>io.MultiWriter(w, h).Write\<close>: the writers in order; the first error, or a short
  write, ends the call before the next writer sees the bytes.
\<close>

definition MultiWriter_Write ::
  "sink \<times> hasher \<Rightarrow> byte list \<Rightarrow> (sink \<times> hasher) \<times> nat \<times> error option" where
  "MultiWriter_Write dst p =
     (let (w, h) = dst; (w', n, err) = sink_Write w p
      in case err of
           Some e \<Rightarrow> ((w', h), n, Some e)
         | None \<Rightarrow>
             if n \<noteq> length p then ((w', h), n, Some ErrShortWrite)
             else ((w', hasher_Write h p), length p, None))"

text \<open>
  The loop of \<open>io.Copy\<close> over the chunks the source's \<open>Read\<close> calls return, ended by
  the source's last error (\<open>None\<close> for \<open>EOF\<close>, which is no error of the copy).
\<close>

fun io_Copy ::
  "sink \<times> hasher \<Rightarrow> byte list list \<Rightarrow> error option \<Rightarrow> int
     \<Rightarrow> (sink \<times> hasher) \<times> int \<times> error option" where
  "io_Copy dst [] er count = (dst, count, er)"
| "io_Copy dst (buf # bufs) er count =
     (if buf = [] then io_Copy dst bufs er count
      else
        (let (dst', nw, ew) = MultiWriter_Write dst buf;
             count' = count + int nw
         in case ew of
              Some e \<Rightarrow> (dst', count', Some e)
            | None \<Rightarrow>
                if length buf \<noteq> nw then (dst', count', Some ErrShortWrite)
                else io_Copy dst' bufs er count'))"

text \<open>
  The buffer of \<open>io.Copy\<close> holds 32 KiB, so a stream arrives in chunks of at most that
  size. Where the source cuts its bytes into reads does not change what is copied
  (\<open>concat_chop\<close> below).
\<close>

function chop :: "nat \<Rightarrow> 'a list \<Rightarrow> 'a list list" where
  "chop k xs = (if k = 0 \<or> xs = [] then [] else take k xs # chop k (drop k xs))"
  by pat_completeness auto
termination
  by (relation "measure (\<lambda>(k, xs). length xs)") auto

section \<open>The request body\<close>

text \<open>
  Packages \<open>net/http\<close> and \<open>mime/multipart\<close> are no part of this repository; the
  request is modelled by where its parts lie in the body, which is what decides how far
  a bounded reader gets.
  A multipart body on the wire: each part is the delimiter line (\<open>delim_len\<close> bytes),
  its header block (\<open>header_len\<close> bytes) and its content; the closing delimiter and
  whatever follows it (\<open>epilogue_len\<close> bytes) end the body. \<open>ContentLength\<close> is what the
  client declared (\<open>-1\<close> when it declared nothing), \<open>MultipartReader_err\<close> the error of
  \<open>r.MultipartReader()\<close> if the request is no multipart form, and \<open>body_fault\<close> a
  connection that breaks after so many bytes.
\<close>

record Part =
  FormName :: string
  FileName :: string
  header_len :: nat
  content :: "byte list"

record Request =
  ContentLength :: int
  MultipartReader_err :: "error option"
  delim_len :: nat
  parts :: "Part list"
  epilogue_len :: nat
  body_fault :: "(nat \<times> error) option"

definition body_len :: "Request \<Rightarrow> nat" where
  "body_len r =
     (\<Sum>p\<leftarrow>parts r. delim_len r + header_len p + length (content p))
       + delim_len r + epilogue_len r"

text \<open>How many bytes \<open>r.Body\<close> delivers and the error that follows them.\<close>

definition Body :: "Request \<Rightarrow> nat \<times> error" where
  "Body r =
     (case body_fault r of
        None \<Rightarrow> (body_len r, EOF)
      | Some (k, e) \<Rightarrow> if k < body_len r then (k, e) else (body_len r, EOF))"

text \<open>
  \<open>http.MaxBytesReader(w, body, n)\<close>: the first \<open>n\<close> bytes of the body pass (a negative
  \<open>n\<close> counts as 0); when the body holds more, the read that reaches byte \<open>n + 1\<close> fails.
\<close>

definition http_MaxBytesReader :: "int \<Rightarrow> nat \<times> error \<Rightarrow> nat \<times> error" where
  "http_MaxBytesReader n body =
     (let (avail, err) = body
      in if max 0 n < int avail then (nat n, ErrBodyTooLarge) else (avail, err))"

text \<open>
  The error a multipart reader returns when the body ends where a delimiter or a header
  was due.
\<close>

definition cut_error :: "error \<Rightarrow> error" where
  "cut_error err = (if err = EOF then ErrUnexpectedEOF else Wrapf ''multipart: NextPart'' err)"

text \<open>
  The loop over \<open>mr.NextPart()\<close>, lines 210 to 218, on a body of which \<open>avail\<close> bytes
  can be read. \<open>NextPart\<close> returns a part once its delimiter and header block have been
  read, skipping what is left of the part before; after the last part it returns \<open>EOF\<close>.
  The loop ends at the first error or at the first part whose form name is \<open>file\<close>, which
  it returns with the offset where that part's content begins.
\<close>

fun NextPart_loop :: "nat \<times> error \<Rightarrow> nat \<Rightarrow> nat \<Rightarrow> Part list \<Rightarrow> error + Part \<times> nat" where
  "NextPart_loop body d pos [] =
     (if pos + d \<le> fst body then Inl EOF else Inl (cut_error (snd body)))"
| "NextPart_loop body d pos (p # ps) =
     (let start = pos + d + header_len p
      in if fst body < start then Inl (cut_error (snd body))
         else if FormName p = ''file'' then Inr (p, start)
         else NextPart_loop body d (start + length (content p)) ps)"

text \<open>
  Reading the part \<open>p\<close> whose content begins at \<open>start\<close>: the content that lies within
  the readable bytes, in chunks, and \<open>EOF\<close> (\<open>None\<close>) if the delimiter that ends the part
  can be read too, else the error of the body.
\<close>

definition Part_Read :: "nat \<times> error \<Rightarrow> nat \<Rightarrow> nat \<Rightarrow> Part \<Rightarrow> byte list list \<times> error option" where
  "Part_Read body d start p =
     (let (avail, err) = body
      in if start + length (content p) + d \<le> avail then (chop 32768 (content p), None)
         else (chop 32768 (take (avail - start) (content p)),
               Some (if err = EOF then ErrUnexpectedEOF else err)))"

section \<open>The upload pipeline\<close>

text \<open>
  Modelled from the spec: the metadata store of package \<open>database\<close>, which is not among
  the sources. It is a record store keyed by slug with create and lookup; lookup of an
  absent slug gives the not-found signal \<open>ErrNoResults\<close>. Either call fails when the
  store is unreachable, which is the \<open>error option\<close> argument.
\<close>

type_synonym database = "string \<rightharpoonup> Entry"

definition Database_Create :: "error option \<Rightarrow> database \<Rightarrow> Entry \<Rightarrow> error + database" where
  "Database_Create fault db e =
     (case fault of Some err \<Rightarrow> Inl err | None \<Rightarrow> Inr (db(Slug e \<mapsto> e)))"

definition Database_Lookup :: "error option \<Rightarrow> database \<Rightarrow> string \<Rightarrow> error + Entry" where
  "Database_Lookup fault db slug =
     (case fault of
        Some err \<Rightarrow> Inl err
      | None \<Rightarrow> (case db slug of None \<Rightarrow> Inl ErrNoResults | Some e \<Rightarrow> Inr e))"

text \<open>
  What the upload handler reads from its surroundings: the bytes of \<open>crypto/rand\<close>, the
  point at which the pipe into the blob store breaks, the failures of the two stores and
  the clock.
\<close>

record UploadEnv =
  rand_Reader :: reader
  pipe_fault :: "(nat \<times> error) option"
  Database_Create_err :: "error option"
  FileSystem_Create_err :: "error option"
  upload_Now :: int

text \<open>
  The function literal of lines 235 to 261, which \<open>filesystem.PipeReader\<close> runs with the
  pipe \<open>w\<close>: copy the part \<open>p\<close> into the pipe and the hasher, read the clock once, and
  create the entry.
\<close>

definition UploadHandler_pipe ::
  "'m lib \<Rightarrow> Server \<Rightarrow> UploadEnv \<Rightarrow> database \<Rightarrow> string \<Rightarrow> string
     \<Rightarrow> byte list list \<times> error option \<Rightarrow> sink \<Rightarrow> sink \<times> database \<times> error option" where
  "UploadHandler_pipe L s env db slug name p w =
     (let h = blake3_New;
          ((w', h'), n, err) = io_Copy (w, h) (fst p) (snd p) 0
      in case err of
           Some e \<Rightarrow> (w', db, Some (Wrapf ''copy'' e))
         | None \<Rightarrow>
             (let now = upload_Now env;
                  l = (if srv_Lifetime s > 0 then Some (now + srv_Lifetime s) else None)
              in case Database_Create (Database_Create_err env) db
                        \<lparr>Slug = slug, Name = name,
                         Sum = EncodeToString (hasher_Sum L h'),
                         Size = n, Timestamp = now, Lifetime = l\<rparr> of
                   Inl e \<Rightarrow> (w', db, Some (Wrapf ''create entry'' e))
                 | Inr db' \<Rightarrow> (w', db', None)))"

text \<open>
  Modelled from the spec: \<open>FileSystem.Create\<close> and \<open>filesystem.PipeReader\<close> of package
  \<open>filesystem\<close>, which is not among the sources. The blob store offers a streaming write
  keyed by slug: it runs the function it is given against the pipe and takes what the
  function writes; an error of the function is the error of the write, and the store can
  fail by itself once the stream has ended.
\<close>

definition FileSystem_Create ::
  "UploadEnv \<Rightarrow> (sink \<Rightarrow> sink \<times> database \<times> error option) \<Rightarrow> sink \<times> database \<times> error option" where
  "FileSystem_Create env f =
     (let (w, db, err) = f \<lparr>written = [], sink_fault = pipe_fault env\<rparr>
      in case err of
           Some e \<Rightarrow> (w, db, Some e)
         | None \<Rightarrow> (w, db, FileSystem_Create_err env))"

text \<open>
  The outcome of a request: the calls on the response writer, the metadata store
  afterwards and, when the handler got as far as the blob store, the pipe.
\<close>

record Outcome =
  calls :: "wcall list"
  db_after :: database
  pipe :: "sink option"

definition UploadHandler :: "'m lib \<Rightarrow> Server \<Rightarrow> UploadEnv \<Rightarrow> database \<Rightarrow> Request \<Rightarrow> Outcome" where
  "UploadHandler L s env db r =
     (if ContentLength r > srv_Limit s
      then \<lparr>calls = [http_Error (Lit ''Request Entity Too Large'') 413],
            db_after = db, pipe = None\<rparr>
      else
        (let body = http_MaxBytesReader (srv_Limit s) (Body r)
         in case MultipartReader_err r of
              Some err \<Rightarrow> \<lparr>calls = [http_Error (ErrorOf err) 400], db_after = db, pipe = None\<rparr>
            | None \<Rightarrow>
               (case NextPart_loop body (delim_len r) 0 (parts r) of
                  Inl err \<Rightarrow> \<lparr>calls = [http_Error (ErrorOf err) 400], db_after = db, pipe = None\<rparr>
                | Inr (p, start) \<Rightarrow>
                   (let name = FileName p
                    in if length name > 255
                       then \<lparr>calls = [http_Error (Lit ''invalid name'') 400],
                             db_after = db, pipe = None\<rparr>
                       else
                        (case io_ReadFull 9 (rand_Reader env) of
                           (b, Some err) \<Rightarrow>
                             \<lparr>calls = [http_Error (ErrorOf err) 500], db_after = db, pipe = None\<rparr>
                         | (b, None) \<Rightarrow>
                            (let slug = EncodeToString b;
                                 (w, db', err) =
                                   FileSystem_Create env
                                     (UploadHandler_pipe L s env db slug name
                                        (Part_Read body (delim_len r) start p))
                             in case err of
                                  Some e \<Rightarrow>
                                    \<lparr>calls = [http_Error (ErrorOf e) 500],
                                     db_after = db', pipe = Some w\<rparr>
                                | None \<Rightarrow>
                                    (let ext = filepath_Ext name;
                                         sb = CHR ''/'' # slug @ ext
                                     in \<lparr>calls = [http_Redirect sb 303,
                                                   io_WriteString (sb @ [CHR 0x0A])],
                                         db_after = db', pipe = Some w\<rparr>)))))))"

section \<open>Content-type detection\<close>

text \<open>
  The blob opened for serving, a \<open>filesystem.Reader\<close>: its bytes, the read position,
  the offset at which reading breaks (if it does), the error of \<open>Seek\<close> (if it has one)
  and a count of the bytes read from it so far.
\<close>

record stream =
  data :: "byte list"
  offset :: nat
  read_fault :: "(nat \<times> error) option"
  Seek_err :: "error option"
  nread :: nat

text \<open>What is left to read of a stream, as a reader.\<close>

definition remaining :: "stream \<Rightarrow> reader" where
  "remaining r =
     (case read_fault r of
        None \<Rightarrow> (drop (offset r) (data r), EOF)
      | Some (k, e) \<Rightarrow>
          if k < length (data r) then (drop (offset r) (take k (data r)), e)
          else (drop (offset r) (data r), EOF))"

definition stream_ReadFull :: "nat \<Rightarrow> stream \<Rightarrow> byte list \<times> error option \<times> stream" where
  "stream_ReadFull n r =
     (let (b, err) = io_ReadFull n (remaining r)
      in (b, err, r\<lparr>offset := offset r + length b, nread := nread r + length b\<rparr>))"

text \<open>\<open>r.Seek(0, io.SeekStart)\<close>.\<close>

definition Seek_start :: "stream \<Rightarrow> error + stream" where
  "Seek_start r = (case Seek_err r of Some e \<Rightarrow> Inl e | None \<Rightarrow> Inr (r\<lparr>offset := 0\<rparr>))"

text \<open>
  \<open>detectContentType\<close>, lines 282 to 295. The error of \<open>io.ReadFull\<close> is dropped, as
  the source drops it. The stream is returned as the call leaves it.
\<close>

definition detectContentType :: "'m lib \<Rightarrow> string \<Rightarrow> stream \<Rightarrow> (error + string) \<times> stream" where
  "detectContentType L name r =
     (let (b, _, r1) = stream_ReadFull 3072 r
      in case Seek_start r1 of
           Inl err \<Rightarrow> (Inl (ErrNew (''seeker can'' @ [CHR 0x27] @ ''t seek'')), r1)
         | Inr r2 \<Rightarrow>
             (let m = mimetype_Detect L b
              in if mime_Is L m ''application/octet-stream''
                 then (let ctype = mime_TypeByExtension L (filepath_Ext name)
                       in if ctype \<noteq> [] then (Inr ctype, r2) else (Inr (mime_String L m), r2))
                 else (Inr (mime_String L m), r2)))"

section \<open>Durations, float64 and formatting\<close>

text \<open>
  \<open>Time.Before\<close> compares instants. \<open>Time.Sub\<close> is the difference as a
  \<open>time.Duration\<close>, an int64 of nanoseconds, and saturates at the ends of its range.
\<close>

definition time_Before :: "int \<Rightarrow> int \<Rightarrow> bool" where
  "time_Before t u = (t < u)"

definition time_Sub :: "int \<Rightarrow> int \<Rightarrow> int" where
  "time_Sub t u =
     (let d = t - u
      in if d > 2 ^ 63 - 1 then 2 ^ 63 - 1 else if d < - (2 ^ 63) then - (2 ^ 63) else d)"

text \<open>
  A float64 is the rational it denotes. \<open>float64 x\<close> rounds \<open>x\<close> to the nearest number
  with a significand of 53 bits, ties to even; this is the rounding of every float64
  operation within the range of normal numbers, which the seconds of a duration never
  leave. \<open>ilog2 a\<close> is the exponent \<open>e\<close> with \<open>2 ^ e \<le> a < 2 ^ (e + 1)\<close>.
\<close>

definition pow2 :: "int \<Rightarrow> rat" where
  "pow2 k = (if 0 \<le> k then 2 ^ nat k else 1 / 2 ^ nat (- k))"

definition ilog2 :: "rat \<Rightarrow> int" where
  "ilog2 a =
     (let (p, q) = quotient_of a; k = bitlen p - bitlen q
      in if pow2 k \<le> a then k else k - 1)"

definition round_even :: "rat \<Rightarrow> int" where
  "round_even q =
     (let f = \<lfloor>q\<rfloor>; r = q - of_int f
      in if r < 1 / 2 then f else if 1 / 2 < r then f + 1
         else if even f then f else f + 1)"

definition float64 :: "rat \<Rightarrow> rat" where
  "float64 x =
     (if x = 0 then 0
      else (let e = ilog2 \<bar>x\<bar>
            in sgn x * of_int (round_even (\<bar>x\<bar> * pow2 (52 - e))) * pow2 (e - 52)))"

text \<open>
  \<open>Duration.Seconds\<close> of package \<open>time\<close>:
  \<^verbatim>\<open>sec := d / Second; nsec := d % Second; return float64(sec) + float64(nsec)/1e9\<close>
  with Go's truncating division, and the conversion \<open>int(f)\<close>, which drops the fraction.
\<close>

definition Duration_Seconds :: "int \<Rightarrow> rat" where
  "Duration_Seconds d =
     (let sec = d sdiv 1000000000; nsec = d smod 1000000000
      in float64 (float64 (of_int sec) + float64 (float64 (of_int nsec) / 1000000000)))"

definition int_of_float64 :: "rat \<Rightarrow> int" where
  "int_of_float64 f = (if 0 \<le> f then \<lfloor>f\<rfloor> else \<lceil>f\<rceil>)"

text \<open>The verbs \<open>%d\<close> and \<open>%x\<close> of \<open>fmt\<close> on an integer.\<close>

definition digit :: "nat \<Rightarrow> char" where
  "digit k = ''0123456789abcdef'' ! k"

function fmt_nat :: "nat \<Rightarrow> nat \<Rightarrow> string" where
  "fmt_nat b n = (if b < 2 \<or> n < b then [digit n] else fmt_nat b (n div b) @ [digit (n mod b)])"
  by pat_completeness auto
termination
  by (relation "measure (\<lambda>(b, n). n)") auto

definition fmt_d :: "int \<Rightarrow> string" where
  "fmt_d i = (if i < 0 then CHR ''-'' # fmt_nat 10 (nat (- i)) else fmt_nat 10 (nat i))"

definition fmt_x :: "int \<Rightarrow> string" where
  "fmt_x i = (if i < 0 then CHR ''-'' # fmt_nat 16 (nat (- i)) else fmt_nat 16 (nat i))"

section \<open>The serving pipeline\<close>

definition strings_HasPrefix :: "string \<Rightarrow> string \<Rightarrow> bool" where
  "strings_HasPrefix s pre = (length pre \<le> length s \<and> take (length pre) s = pre)"

text \<open>\<open>path.Split\<close>: the path up to and with its last slash, and the rest.\<close>

definition path_Split :: "string \<Rightarrow> string \<times> string" where
  "path_Split p =
     (let file = rev (takeWhile (\<lambda>c. c \<noteq> CHR ''/'') (rev p))
      in (take (length p - length file) p, file))"

text \<open>
  Lines 128 to 138: the value of the \<open>Cache-Control\<close> header, or \<open>None\<close> where the
  function returns \<open>os.ErrNotExist\<close> for an entry whose lifetime has passed.
\<close>

definition cache_control :: "int \<Rightarrow> Entry \<Rightarrow> string option" where
  "cache_control now e =
     (case Lifetime e of
        None \<Rightarrow> Some ''max-age=31536000''
      | Some l \<Rightarrow>
          if time_Before l now then None
          else Some (''public, must-revalidate, max-age=''
                     @ fmt_d (int_of_float64 (Duration_Seconds (time_Sub l now)))))"

text \<open>Lines 155 to 159: an HTML type is served as plain text.\<close>

definition html_to_plain :: "string \<Rightarrow> string" where
  "html_to_plain ctype =
     (if strings_HasPrefix ctype ''text/html''
      then ''text/plain'' @ drop (length ''text/html'') ctype
      else ctype)"

text \<open>
  What the file server's \<open>Open\<close> reads from its surroundings: the public directory,
  the failure of the metadata store, the clock and the blob store.
\<close>

datatype public_file =
    IsNotExist
  | OpenError error
  | Opened "error + bool \<times> int \<times> int"

record ServeEnv =
  Dir_Open :: "string \<Rightarrow> public_file"
  Database_Lookup_err :: "error option"
  serve_Now :: int
  FileSystem_Open :: "string \<Rightarrow> error + stream"

datatype http_File = PublicFile | EntryFile stream Entry

datatype 'a result = Ok 'a | Err error | Panic

text \<open>
  Lines 110 to 172 of the function given to \<open>http.FileServer\<close>: the path names a stored
  entry. The result is the headers set, in order, and what is returned. The deferred
  \<open>f.Close()\<close> of an early return is left out: nothing reads the stream after it.
\<close>

definition Open_entry ::
  "'m lib \<Rightarrow> ServeEnv \<Rightarrow> database \<Rightarrow> string \<Rightarrow> wcall list \<times> http_File result" where
  "Open_entry L env db path =
     (let (dir, name) = path_Split path
      in if dir \<noteq> ''/'' then ([], Err ErrNotExist)
         else
          (let name = takeWhile (\<lambda>c. c \<noteq> CHR ''.'') name
           in case Database_Lookup (Database_Lookup_err env) db name of
                Inl err \<Rightarrow>
                  if errors_Is err ErrNoResults then ([], Err ErrNotExist) else ([], Err err)
              | Inr e \<Rightarrow>
                 (case cache_control (serve_Now env) e of
                    None \<Rightarrow> ([], Err ErrNotExist)
                  | Some cache \<Rightarrow>
                     (case FileSystem_Open env (Slug e) of
                        Inl err \<Rightarrow> ([], Err err)
                      | Inr f \<Rightarrow>
                         (case detectContentType L (Name e) f of
                            (Inl err, f') \<Rightarrow> ([], Err (Wrapf ''detect content type'' err))
                          | (Inr ctype, f') \<Rightarrow>
                             (let ctype = html_to_plain ctype;
                                  esc = url_PathEscape L (Name e)
                              in ([Header_Set ''Cache-Control'' cache,
                                   Header_Set ''Content-Disposition''
                                     (''filename='' @ fmt_q L esc @ ''; filename*=UTF-8''
                                        @ [CHR 0x27, CHR 0x27] @ esc),
                                   Header_Set ''Content-Type'' ctype,
                                   Header_Set ''Etag'' (strconv_Quote L (Sum e))]
                                  @ (case Lifetime e of
                                       None \<Rightarrow> []
                                     | Some l \<Rightarrow> [Header_Set ''Expires'' (Format_TimeFormat L l)])
                                  @ [Header_Set ''X-Content-Type-Options'' ''nosniff''],
                                  Ok (EntryFile f' e))))))))"

text \<open>
  Lines 93 to 173: the public directory first. A file there is served with a weak
  validator; an error of \<open>Open\<close> other than not-exist leaves \<open>f\<close> nil, and \<open>f.Stat()\<close>
  panics.
\<close>

definition Open :: "'m lib \<Rightarrow> ServeEnv \<Rightarrow> database \<Rightarrow> string \<Rightarrow> wcall list \<times> http_File result" where
  "Open L env db name =
     (case Dir_Open env name of
        OpenError err \<Rightarrow> ([], Panic)
      | Opened st \<Rightarrow>
         (case st of
            Inl err \<Rightarrow> ([], Err err)
          | Inr (isdir, modtime, sz) \<Rightarrow>
              (if \<not> isdir
               then [Header_Set ''Cache-Control'' ''max-age=31536000'',
                     Header_Set ''Etag''
                       (''W/'' @ [CHR 0x22] @ fmt_x modtime @ ''-'' @ fmt_x sz @ [CHR 0x22])]
               else [],
               Ok PublicFile))
      | IsNotExist \<Rightarrow> Open_entry L env db name)"

section \<open>Sample values\<close>

text \<open>
  A library, a server, an environment and a request on which the theorems below are
  instantiated. The digest of the sample library is a stand-in (it reverses its input);
  its sniffer knows HTML by a leading \<open><\<close> and calls everything else
  \<open>application/octet-stream\<close>; its extension table knows \<open>.pdf\<close>.
\<close>

definition sample_lib :: "string lib" where
  "sample_lib =
     \<lparr>blake3_Sum = (\<lambda>bs. rev bs),
      mimetype_Detect =
        (\<lambda>bs. if take 1 bs = [0x3C] then ''text/html; charset=utf-8''
              else ''application/octet-stream''),
      mime_Is = (\<lambda>m t. takeWhile (\<lambda>c. c \<noteq> CHR '';'') m = t),
      mime_String = (\<lambda>m. m),
      mime_TypeByExtension = (\<lambda>ext. if ext = ''.pdf'' then ''application/pdf'' else []),
      url_PathEscape = (\<lambda>s. s),
      fmt_q = (\<lambda>s. [CHR 0x22] @ s @ [CHR 0x22]),
      strconv_Quote = (\<lambda>s. [CHR 0x22] @ s @ [CHR 0x22]),
      Format_TimeFormat = fmt_d\<rparr>"

definition sample_server :: Server where
  "sample_server = \<lparr>srv_Lifetime = 3600000000000, srv_Limit = 1000, srv_PublicPath = ''public''\<rparr>"

definition sample_env :: UploadEnv where
  "sample_env =
     \<lparr>rand_Reader = ([1, 2, 3, 4, 5, 6, 7, 8, 9, 10], EOF), pipe_fault = None,
      Database_Create_err = None, FileSystem_Create_err = None, upload_Now = 5000\<rparr>"

definition sample_part :: Part where
  "sample_part =
     \<lparr>FormName = ''file'', FileName = ''report.final.pdf'', header_len = 80,
      content = [0x25, 0x50, 0x44, 0x46]\<rparr>"

definition sample_request :: Request where
  "sample_request =
     \<lparr>ContentLength = 168, MultipartReader_err = None, delim_len = 40,
      parts = [sample_part], epilogue_len = 4, body_fault = None\<rparr>"

text \<open>
  A stored entry, a blob that reads and seeks without error, and the surroundings of a
  lookup at the instant \<open>now\<close> when the blob holds the bytes \<open>bs\<close> and the public
  directory has no file.
\<close>

definition sample_entry :: Entry where
  "sample_entry =
     \<lparr>Slug = ''AQIDBAUGBwgJ'', Name = ''report.final.pdf'', Sum = ''RkRQJQ'', Size = 4,
      Timestamp = 5000, Lifetime = Some 3600000005000\<rparr>"

definition sample_blob :: "byte list \<Rightarrow> stream" where
  "sample_blob bs = \<lparr>data = bs, offset = 0, read_fault = None, Seek_err = None, nread = 0\<rparr>"

definition sample_serve_env :: "int \<Rightarrow> byte list \<Rightarrow> ServeEnv" where
  "sample_serve_env now bs =
     \<lparr>Dir_Open = (\<lambda>name. IsNotExist), Database_Lookup_err = None, serve_Now = now,
      FileSystem_Open = (\<lambda>slug. Inr (sample_blob bs))\<rparr>"

section \<open>Facts about the library functions\<close>

declare chop.simps [simp del]
declare fmt_nat.simps [simp del]

lemma enc_in_alphabet: "enc v \<in> set encodeURL"
proof -
  have "unat (v AND 0x3F) \<le> unat (0x3F :: 64 word)"
    by (rule word_and_le1 [THEN word_le_nat_alt [THEN iffD1]])
  then have "unat (v AND 0x3F) < length encodeURL"
    by (simp add: encodeURL_def)
  then show ?thesis
    unfolding enc_def by (rule nth_mem)
qed

lemma EncodeToString_alphabet: "set (EncodeToString bs) \<subseteq> set encodeURL"
  by (induction bs rule: EncodeToString.induct) (simp_all add: Let_def enc_in_alphabet)

lemma EncodeToString_length: "length (EncodeToString bs) = (4 * length bs + 2) div 3"
  by (induction bs rule: EncodeToString.induct) (simp_all add: Let_def)

lemma io_ReadFull_ok: "io_ReadFull n rd = (b, None) \<Longrightarrow> b = take n (fst rd) \<and> length b = n"
  by (cases rd) (auto simp: io_ReadFull_def split: if_splits)

lemma chop_Nil: "chop k [] = []"
  by (simp add: chop.simps)

lemma chop_step: "0 < k \<Longrightarrow> xs \<noteq> [] \<Longrightarrow> chop k xs = take k xs # chop k (drop k xs)"
  by (subst chop.simps) simp

lemma concat_chop: "0 < k \<Longrightarrow> concat (chop k xs) = xs"
proof (induction k xs rule: chop.induct)
  case (1 k xs)
  show ?case
  proof (cases "xs = []")
    case True
    then show ?thesis by (simp add: chop_Nil)
  next
    case False
    with 1 show ?thesis by (simp add: chop_step)
  qed
qed

lemma MultiWriter_Write_ok:
  "MultiWriter_Write (w, h) p = ((w', h'), n, None) \<Longrightarrow>
     written w' = written w @ p \<and> sink_fault w' = sink_fault w \<and> h' = h @ p \<and> n = length p"
  by (auto simp: MultiWriter_Write_def sink_Write_def hasher_Write_def Let_def
           split: option.splits prod.splits if_splits)

lemma io_Copy_ok:
  "io_Copy (w, h) bufs er c = ((w', h'), n, None) \<Longrightarrow>
     er = None \<and> written w' = written w @ concat bufs \<and> h' = h @ concat bufs
       \<and> n = c + int (length (concat bufs)) \<and> sink_fault w' = sink_fault w"
proof (induction bufs arbitrary: w h c)
  case Nil
  then show ?case by simp
next
  case (Cons buf bufs)
  show ?case
  proof (cases "buf = []")
    case True
    with Cons show ?thesis by simp
  next
    case False
    obtain w1 h1 nw ew where mw: "MultiWriter_Write (w, h) buf = ((w1, h1), nw, ew)"
      by (metis prod.exhaust)
    with Cons.prems False have ew: "ew = None" and nw: "nw = length buf"
      and rest: "io_Copy (w1, h1) bufs er (c + int nw) = ((w', h'), n, None)"
      by (auto simp: Let_def split: option.splits if_splits)
    from mw ew have step: "written w1 = written w @ buf" "h1 = h @ buf" "sink_fault w1 = sink_fault w"
      using MultiWriter_Write_ok by blast+
    from Cons.IH [OF rest] step nw show ?thesis by simp
  qed
qed

lemma io_Copy_source_error:
  "io_Copy dst bufs (Some e) c = (dst', n, err) \<Longrightarrow> err \<noteq> None"
proof (induction bufs arbitrary: dst c)
  case Nil
  then show ?case by auto
next
  case (Cons buf bufs)
  then show ?case
    by (auto simp: Let_def split: option.splits if_splits prod.splits)
qed

section \<open>The upload handler, case by case\<close>

lemma UploadHandler_pipe_cases:
  assumes "UploadHandler_pipe L s env db slug name p w = (w', db', res)"
  shows "\<exists>h' n err. io_Copy (w, blake3_New) (fst p) (snd p) 0 = ((w', h'), n, err) \<and>
     (case err of
        Some e \<Rightarrow> db' = db \<and> res = Some (Wrapf ''copy'' e)
      | None \<Rightarrow>
         (case Database_Create_err env of
            Some e \<Rightarrow> db' = db \<and> res = Some (Wrapf ''create entry'' e)
          | None \<Rightarrow> res = None \<and>
              db' = db(slug \<mapsto> \<lparr>Slug = slug, Name = name,
                         Sum = EncodeToString (blake3_Sum L h'), Size = n,
                         Timestamp = upload_Now env,
                         Lifetime = (if srv_Lifetime s > 0
                                     then Some (upload_Now env + srv_Lifetime s) else None)\<rparr>)))"
  using assms
  by (auto simp: UploadHandler_pipe_def Database_Create_def hasher_Sum_def Let_def
           split: prod.splits option.splits)

lemma UploadHandler_cases:
  obtains
    (rejected) m c where "UploadHandler L s env db r = \<lparr>calls = [http_Error m c], db_after = db, pipe = None\<rparr>"
      "c = 413 \<or> c = 400 \<or> c = 500" "(c = 413) = (ContentLength r > srv_Limit s)"
  | (stored) p start b w db' res where
      "\<not> ContentLength r > srv_Limit s"
      "MultipartReader_err r = None"
      "NextPart_loop (http_MaxBytesReader (srv_Limit s) (Body r)) (delim_len r) 0 (parts r) = Inr (p, start)"
      "length (FileName p) \<le> 255"
      "io_ReadFull 9 (rand_Reader env) = (b, None)"
      "FileSystem_Create env
         (UploadHandler_pipe L s env db (EncodeToString b) (FileName p)
            (Part_Read (http_MaxBytesReader (srv_Limit s) (Body r)) (delim_len r) start p))
         = (w, db', res)"
      "UploadHandler L s env db r =
         \<lparr>calls = (case res of
                     Some e \<Rightarrow> [http_Error (ErrorOf e) 500]
                   | None \<Rightarrow> [http_Redirect (CHR ''/'' # EncodeToString b @ filepath_Ext (FileName p)) 303,
                              io_WriteString ((CHR ''/'' # EncodeToString b @ filepath_Ext (FileName p)) @ [CHR 0x0A])]),
          db_after = db', pipe = Some w\<rparr>"
proof (cases "ContentLength r > srv_Limit s")
  case True
  then show ?thesis by (intro rejected [of "Lit ''Request Entity Too Large''" 413]) (simp_all add: UploadHandler_def)
next
  case small: False
  show ?thesis
  proof (cases "MultipartReader_err r")
    case (Some err)
    with small show ?thesis by (intro rejected [of "ErrorOf err" 400]) (simp_all add: UploadHandler_def)
  next
    case mp: None
    show ?thesis
    proof (cases "NextPart_loop (http_MaxBytesReader (srv_Limit s) (Body r)) (delim_len r) 0 (parts r)")
      case (Inl err)
      with small mp show ?thesis by (intro rejected [of "ErrorOf err" 400]) (simp_all add: UploadHandler_def)
    next
      case (Inr found)
      obtain p start where found: "found = (p, start)" by (cases found)
      show ?thesis
      proof (cases "length (FileName p) > 255")
        case True
        with small mp Inr found show ?thesis
          by (intro rejected [of "Lit ''invalid name''" 400]) (simp_all add: UploadHandler_def)
      next
        case name: False
        obtain b rerr where rd: "io_ReadFull 9 (rand_Reader env) = (b, rerr)" by (cases "io_ReadFull 9 (rand_Reader env)")
        show ?thesis
        proof (cases rerr)
          case (Some err)
          with small mp Inr found name rd show ?thesis
            by (intro rejected [of "ErrorOf err" 500]) (simp_all add: UploadHandler_def)
        next
          case None
          obtain w db' res where cr: "FileSystem_Create env
             (UploadHandler_pipe L s env db (EncodeToString b) (FileName p)
               (Part_Read (http_MaxBytesReader (srv_Limit s) (Body r)) (delim_len r) start p))
             = (w, db', res)" by (metis prod.exhaust)
          with small mp Inr found name rd None show ?thesis
            by (intro stored [of p start b w db' res])
               (simp_all add: UploadHandler_def Let_def split: option.splits)
        qed
      qed
    qed
  qed
qed

lemma UploadHandler_created:
  assumes "db_after (UploadHandler L s env db r) \<noteq> db"
  obtains p start b w where
     "NextPart_loop (http_MaxBytesReader (srv_Limit s) (Body r)) (delim_len r) 0 (parts r) = Inr (p, start)"
     "io_ReadFull 9 (rand_Reader env) = (b, None)"
     "pipe (UploadHandler L s env db r) = Some w"
     "written w = content p"
     "db_after (UploadHandler L s env db r) =
          db(EncodeToString b \<mapsto>
             \<lparr>Slug = EncodeToString b, Name = FileName p,
              Sum = EncodeToString (blake3_Sum L (written w)),
              Size = int (length (written w)),
              Timestamp = upload_Now env,
              Lifetime = (if srv_Lifetime s > 0
                          then Some (upload_Now env + srv_Lifetime s) else None)\<rparr>)"
proof (cases rule: UploadHandler_cases [where L = L and s = s and env = env and db = db and r = r])
  case (rejected m c)
  with assms show ?thesis by simp
next
  case (stored p start b w db' res)
  let ?body = "http_MaxBytesReader (srv_Limit s) (Body r)"
  let ?rd = "Part_Read ?body (delim_len r) start p"
  from stored(7) assms have changed: "db' \<noteq> db" by simp
  from stored(6) obtain res0 where
    run: "UploadHandler_pipe L s env db (EncodeToString b) (FileName p) ?rd
            \<lparr>written = [], sink_fault = pipe_fault env\<rparr> = (w, db', res0)"
    by (auto simp: FileSystem_Create_def split: prod.splits option.splits)
  from UploadHandler_pipe_cases [OF run] obtain h' n err where
    cp: "io_Copy (\<lparr>written = [], sink_fault = pipe_fault env\<rparr>, blake3_New) (fst ?rd) (snd ?rd) 0
           = ((w, h'), n, err)"
    and rest: "(case err of
        Some e \<Rightarrow> db' = db \<and> res0 = Some (Wrapf ''copy'' e)
      | None \<Rightarrow>
         (case Database_Create_err env of
            Some e \<Rightarrow> db' = db \<and> res0 = Some (Wrapf ''create entry'' e)
          | None \<Rightarrow> res0 = None \<and>
              db' = db(EncodeToString b \<mapsto> \<lparr>Slug = EncodeToString b, Name = FileName p,
                         Sum = EncodeToString (blake3_Sum L h'), Size = n,
                         Timestamp = upload_Now env,
                         Lifetime = (if srv_Lifetime s > 0
                                     then Some (upload_Now env + srv_Lifetime s) else None)\<rparr>)))"
    by blast
  from rest changed have err: "err = None"
    by (cases err) auto
  with rest changed have db': "db' = db(EncodeToString b \<mapsto> \<lparr>Slug = EncodeToString b, Name = FileName p,
                         Sum = EncodeToString (blake3_Sum L h'), Size = n,
                         Timestamp = upload_Now env,
                         Lifetime = (if srv_Lifetime s > 0
                                     then Some (upload_Now env + srv_Lifetime s) else None)\<rparr>)"
    by (cases "Database_Create_err env") auto
  from io_Copy_ok [OF cp [unfolded err]] have
    eof: "snd ?rd = None" and wr: "written w = concat (fst ?rd)" and h': "h' = concat (fst ?rd)"
    and n: "n = int (length (concat (fst ?rd)))"
    by (simp_all add: blake3_New_def)
  from eof have "fst ?rd = chop 32768 (content p)"
    by (auto simp: Part_Read_def split: prod.splits if_splits)
  with wr have "written w = content p"
    by (simp add: concat_chop)
  with stored(3,5,7) db' wr h' n show ?thesis
    by (intro that [of p start b w]) auto
qed

section \<open>The sample upload\<close>

lemma chop_short: "xs \<noteq> [] \<Longrightarrow> length xs \<le> k \<Longrightarrow> chop k xs = [xs]"
proof -
  assume ne: "xs \<noteq> []" and le: "length xs \<le> k"
  then have "0 < k" by (cases xs) auto
  with ne le show ?thesis by (subst chop.simps) (simp add: chop_Nil)
qed

lemma sample_upload:
  "UploadHandler sample_lib sample_server sample_env Map.empty sample_request =
     \<lparr>calls = [http_Redirect ''/AQIDBAUGBwgJ.pdf'' 303, io_WriteString (''/AQIDBAUGBwgJ.pdf'' @ [CHR 0x0A])],
      db_after = [''AQIDBAUGBwgJ'' \<mapsto>
         \<lparr>Slug = ''AQIDBAUGBwgJ'', Name = ''report.final.pdf'', Sum = ''RkRQJQ'', Size = 4,
          Timestamp = 5000, Lifetime = Some 3600000005000\<rparr>],
      pipe = Some \<lparr>written = [0x25, 0x50, 0x44, 0x46], sink_fault = None\<rparr>\<rparr>"
  by (simp add: UploadHandler_def sample_lib_def sample_server_def sample_env_def
      sample_request_def sample_part_def body_len_def Body_def http_MaxBytesReader_def
      io_ReadFull_def Part_Read_def chop_short FileSystem_Create_def UploadHandler_pipe_def
      blake3_New_def MultiWriter_Write_def sink_Write_def hasher_Write_def hasher_Sum_def
      Database_Create_def filepath_Ext_def enc_def encodeURL_def Let_def)

section \<open>The entry an upload creates\<close>

lemma UploadHandler_pipe_copy_failed:
  assumes "io_Copy (w0, blake3_New) (fst p) (snd p) 0 = (dst, n, Some e)"
  shows "UploadHandler_pipe L s env db slug name p w0 = (fst dst, db, Some (Wrapf ''copy'' e))"
  using assms by (cases dst) (simp add: UploadHandler_pipe_def)

lemma UploadHandler_pipe_copied:
  assumes "io_Copy (w0, blake3_New) (fst p) (snd p) 0 = (dst, n, None)"
  shows "n = int (length (concat (fst p)))"
    and "written (fst dst) = written w0 @ concat (fst p)"
    and "UploadHandler_pipe L s env db slug name p w0 =
       (case Database_Create (Database_Create_err env) db
               \<lparr>Slug = slug, Name = name,
                Sum = EncodeToString (blake3_Sum L (concat (fst p))),
                Size = int (length (concat (fst p))),
                Timestamp = upload_Now env,
                Lifetime = (if srv_Lifetime s > 0
                            then Some (upload_Now env + srv_Lifetime s) else None)\<rparr> of
          Inl e \<Rightarrow> (fst dst, db, Some (Wrapf ''create entry'' e))
        | Inr db' \<Rightarrow> (fst dst, db', None))"
proof -
  obtain w' h' where dst: "dst = (w', h')" by (cases dst)
  from io_Copy_ok [OF assms [unfolded dst]] have
    wr: "written w' = written w0 @ concat (fst p)" and h': "h' = concat (fst p)"
    and n: "n = int (length (concat (fst p)))"
    by (simp_all add: blake3_New_def)
  from n show "n = int (length (concat (fst p)))" .
  from wr dst show "written (fst dst) = written w0 @ concat (fst p)" by simp
  from assms dst h' n show "UploadHandler_pipe L s env db slug name p w0 =
       (case Database_Create (Database_Create_err env) db
               \<lparr>Slug = slug, Name = name,
                Sum = EncodeToString (blake3_Sum L (concat (fst p))),
                Size = int (length (concat (fst p))),
                Timestamp = upload_Now env,
                Lifetime = (if srv_Lifetime s > 0
                            then Some (upload_Now env + srv_Lifetime s) else None)\<rparr> of
          Inl e \<Rightarrow> (fst dst, db, Some (Wrapf ''create entry'' e))
        | Inr db' \<Rightarrow> (fst dst, db', None))"
    by (simp add: UploadHandler_pipe_def hasher_Sum_def Let_def split: sum.splits)
qed

text \<open>
  C1. When \<open>io.Copy\<close> has returned without error, it has written every byte of the part
  into the pipe of the blob store, and the entry then given to \<open>Database.Create\<close> has
  the number of those bytes as its \<open>Size\<close> and the unpadded base64url text of their
  BLAKE3 digest as its \<open>Sum\<close>. When \<open>io.Copy\<close> returns an error, whichever it is, the
  function returns that error wrapped and leaves the metadata store as it was. For the
  handler as a whole: an entry it has created has the \<open>Size\<close> and the \<open>Sum\<close> of the
  bytes that were written into the pipe.
\<close>

theorem entry_size_and_sum_of_copied_bytes:
  "(io_Copy (w0, blake3_New) (fst p) (snd p) 0 = (dst, n, None) \<longrightarrow>
      n = int (length (concat (fst p)))
      \<and> written (fst dst) = written w0 @ concat (fst p)
      \<and> UploadHandler_pipe L s env db slug name p w0 =
         (case Database_Create (Database_Create_err env) db
                 \<lparr>Slug = slug, Name = name,
                  Sum = EncodeToString (blake3_Sum L (concat (fst p))),
                  Size = int (length (concat (fst p))),
                  Timestamp = upload_Now env,
                  Lifetime = (if srv_Lifetime s > 0
                              then Some (upload_Now env + srv_Lifetime s) else None)\<rparr> of
            Inl e \<Rightarrow> (fst dst, db, Some (Wrapf ''create entry'' e))
          | Inr db' \<Rightarrow> (fst dst, db', None)))
   \<and> (io_Copy (w0, blake3_New) (fst p) (snd p) 0 = (dst, n, Some err) \<longrightarrow>
        UploadHandler_pipe L s env db slug name p w0 = (fst dst, db, Some (Wrapf ''copy'' err)))
   \<and> (db_after (UploadHandler L s env db r) \<noteq> db \<longrightarrow>
      (\<exists>e w. pipe (UploadHandler L s env db r) = Some w
         \<and> db_after (UploadHandler L s env db r) = db(Slug e \<mapsto> e)
         \<and> Size e = int (length (written w))
         \<and> Sum e = EncodeToString (blake3_Sum L (written w))))"
proof (intro conjI impI)
  assume ok: "io_Copy (w0, blake3_New) (fst p) (snd p) 0 = (dst, n, None)"
  from UploadHandler_pipe_copied(1) [OF ok] show "n = int (length (concat (fst p)))" .
  from UploadHandler_pipe_copied(2) [OF ok]
  show "written (fst dst) = written w0 @ concat (fst p)" .
  from UploadHandler_pipe_copied(3) [OF ok]
  show "UploadHandler_pipe L s env db slug name p w0 =
         (case Database_Create (Database_Create_err env) db
                 \<lparr>Slug = slug, Name = name,
                  Sum = EncodeToString (blake3_Sum L (concat (fst p))),
                  Size = int (length (concat (fst p))),
                  Timestamp = upload_Now env,
                  Lifetime = (if srv_Lifetime s > 0
                              then Some (upload_Now env + srv_Lifetime s) else None)\<rparr> of
            Inl e \<Rightarrow> (fst dst, db, Some (Wrapf ''create entry'' e))
          | Inr db' \<Rightarrow> (fst dst, db', None))" .
next
  assume "io_Copy (w0, blake3_New) (fst p) (snd p) 0 = (dst, n, Some err)"
  then show "UploadHandler_pipe L s env db slug name p w0 = (fst dst, db, Some (Wrapf ''copy'' err))"
    by (rule UploadHandler_pipe_copy_failed)
next
  assume "db_after (UploadHandler L s env db r) \<noteq> db"
  then obtain p' start b w where
    "NextPart_loop (http_MaxBytesReader (srv_Limit s) (Body r)) (delim_len r) 0 (parts r) = Inr (p', start)"
    and "io_ReadFull 9 (rand_Reader env) = (b, None)" and
    w: "pipe (UploadHandler L s env db r) = Some w"
    and "written w = content p'"
    and db': "db_after (UploadHandler L s env db r) =
          db(EncodeToString b \<mapsto>
             \<lparr>Slug = EncodeToString b, Name = FileName p',
              Sum = EncodeToString (blake3_Sum L (written w)),
              Size = int (length (written w)),
              Timestamp = upload_Now env,
              Lifetime = (if srv_Lifetime s > 0
                          then Some (upload_Now env + srv_Lifetime s) else None)\<rparr>)"
    by (rule UploadHandler_created)
  let ?e = "\<lparr>Slug = EncodeToString b, Name = FileName p',
              Sum = EncodeToString (blake3_Sum L (written w)),
              Size = int (length (written w)),
              Timestamp = upload_Now env,
              Lifetime = (if srv_Lifetime s > 0
                          then Some (upload_Now env + srv_Lifetime s) else None)\<rparr>"
  from w db' have "pipe (UploadHandler L s env db r) = Some w
         \<and> db_after (UploadHandler L s env db r) = db(Slug ?e \<mapsto> ?e)
         \<and> Size ?e = int (length (written w))
         \<and> Sum ?e = EncodeToString (blake3_Sum L (written w))"
    by simp
  then show "\<exists>e w. pipe (UploadHandler L s env db r) = Some w
         \<and> db_after (UploadHandler L s env db r) = db(Slug e \<mapsto> e)
         \<and> Size e = int (length (written w))
         \<and> Sum e = EncodeToString (blake3_Sum L (written w))"
    by blast
qed

lemma sample_copy:
  "io_Copy (\<lparr>written = [], sink_fault = None\<rparr>, blake3_New) [[1, 2], [3]] None 0
     = ((\<lparr>written = [1, 2, 3], sink_fault = None\<rparr>, [1, 2, 3]), 3, None)"
  by (simp add: MultiWriter_Write_def sink_Write_def hasher_Write_def blake3_New_def)

lemma sample_failed_copy:
  "io_Copy (\<lparr>written = [], sink_fault = None\<rparr>, blake3_New) [[1, 2]] (Some ErrBodyTooLarge) 0
     = ((\<lparr>written = [1, 2], sink_fault = None\<rparr>, [1, 2]), 2, Some ErrBodyTooLarge)"
  by (simp add: MultiWriter_Write_def sink_Write_def hasher_Write_def blake3_New_def)

theorem entry_size_and_sum_of_copied_bytes_witness:
  "io_Copy (\<lparr>written = [], sink_fault = None\<rparr>, blake3_New) [[1, 2], [3]] None 0
        = ((\<lparr>written = [1, 2, 3], sink_fault = None\<rparr>, [1, 2, 3]), 3, None)
   \<and> UploadHandler_pipe sample_lib sample_server sample_env Map.empty ''AQIDBAUGBwgJ'' ''a.txt''
        ([[1, 2], [3]], None) \<lparr>written = [], sink_fault = None\<rparr>
        = (\<lparr>written = [1, 2, 3], sink_fault = None\<rparr>,
           [''AQIDBAUGBwgJ'' \<mapsto>
              \<lparr>Slug = ''AQIDBAUGBwgJ'', Name = ''a.txt'',
               Sum = EncodeToString (blake3_Sum sample_lib [1, 2, 3]), Size = 3,
               Timestamp = 5000, Lifetime = Some 3600000005000\<rparr>],
           None)
   \<and> io_Copy (\<lparr>written = [], sink_fault = None\<rparr>, blake3_New) [[1, 2]] (Some ErrBodyTooLarge) 0
        = ((\<lparr>written = [1, 2], sink_fault = None\<rparr>, [1, 2]), 2, Some ErrBodyTooLarge)
   \<and> UploadHandler_pipe sample_lib sample_server sample_env Map.empty ''AQIDBAUGBwgJ'' ''a.txt''
        ([[1, 2]], Some ErrBodyTooLarge) \<lparr>written = [], sink_fault = None\<rparr>
        = (\<lparr>written = [1, 2], sink_fault = None\<rparr>, Map.empty, Some (Wrapf ''copy'' ErrBodyTooLarge))
   \<and> db_after (UploadHandler sample_lib sample_server sample_env Map.empty sample_request) \<noteq> Map.empty
   \<and> (\<exists>e w. pipe (UploadHandler sample_lib sample_server sample_env Map.empty sample_request) = Some w
         \<and> db_after (UploadHandler sample_lib sample_server sample_env Map.empty sample_request)
             = [Slug e \<mapsto> e]
         \<and> Size e = int (length (written w))
         \<and> Sum e = EncodeToString (blake3_Sum sample_lib (written w)))"
proof -
  have changed: "db_after (UploadHandler sample_lib sample_server sample_env Map.empty sample_request) \<noteq> Map.empty"
    by (simp add: sample_upload)
  have env: "Database_Create_err sample_env = None" "upload_Now sample_env = 5000"
    "srv_Lifetime sample_server = 3600000000000"
    by (simp_all add: sample_env_def sample_server_def)
  note good = entry_size_and_sum_of_copied_bytes
    [where L = sample_lib and s = sample_server and env = sample_env and db = Map.empty
       and r = sample_request and ?w0.0 = "\<lparr>written = [], sink_fault = None\<rparr>"
       and p = "([[1, 2], [3]], None)"
       and dst = "(\<lparr>written = [1, 2, 3], sink_fault = None\<rparr>, [1, 2, 3])" and n = 3
       and slug = "''AQIDBAUGBwgJ''" and name = "''a.txt''"]
  note bad = entry_size_and_sum_of_copied_bytes
    [where L = sample_lib and s = sample_server and env = sample_env and db = Map.empty
       and r = sample_request and ?w0.0 = "\<lparr>written = [], sink_fault = None\<rparr>"
       and p = "([[1, 2]], Some ErrBodyTooLarge)"
       and dst = "(\<lparr>written = [1, 2], sink_fault = None\<rparr>, [1, 2])" and n = 2
       and err = ErrBodyTooLarge
       and slug = "''AQIDBAUGBwgJ''" and name = "''a.txt''"]
  from good sample_copy have
    "UploadHandler_pipe sample_lib sample_server sample_env Map.empty ''AQIDBAUGBwgJ'' ''a.txt''
        ([[1, 2], [3]], None) \<lparr>written = [], sink_fault = None\<rparr>
        = (\<lparr>written = [1, 2, 3], sink_fault = None\<rparr>,
           [''AQIDBAUGBwgJ'' \<mapsto>
              \<lparr>Slug = ''AQIDBAUGBwgJ'', Name = ''a.txt'',
               Sum = EncodeToString (blake3_Sum sample_lib [1, 2, 3]), Size = 3,
               Timestamp = 5000, Lifetime = Some 3600000005000\<rparr>],
           None)"
    by (simp add: Database_Create_def env)
  moreover from bad sample_failed_copy have
    "UploadHandler_pipe sample_lib sample_server sample_env Map.empty ''AQIDBAUGBwgJ'' ''a.txt''
        ([[1, 2]], Some ErrBodyTooLarge) \<lparr>written = [], sink_fault = None\<rparr>
        = (\<lparr>written = [1, 2], sink_fault = None\<rparr>, Map.empty, Some (Wrapf ''copy'' ErrBodyTooLarge))"
    by simp
  moreover from good changed have
    "\<exists>e w. pipe (UploadHandler sample_lib sample_server sample_env Map.empty sample_request) = Some w
         \<and> db_after (UploadHandler sample_lib sample_server sample_env Map.empty sample_request)
             = [Slug e \<mapsto> e]
         \<and> Size e = int (length (written w))
         \<and> Sum e = EncodeToString (blake3_Sum sample_lib (written w))"
    by blast
  ultimately show ?thesis
    using sample_copy sample_failed_copy changed by simp
qed

section \<open>The answer to a successful upload\<close>

lemma UploadHandler_redirected:
  assumes "\<forall>m c. http_Error m c \<notin> set (calls (UploadHandler L s env db r))"
  obtains p start b w e where
    "NextPart_loop (http_MaxBytesReader (srv_Limit s) (Body r)) (delim_len r) 0 (parts r) = Inr (p, start)"
    "io_ReadFull 9 (rand_Reader env) = (b, None)"
    "UploadHandler L s env db r =
       \<lparr>calls = [http_Redirect (CHR ''/'' # EncodeToString b @ filepath_Ext (FileName p)) 303,
                 io_WriteString ((CHR ''/'' # EncodeToString b @ filepath_Ext (FileName p)) @ [CHR 0x0A])],
        db_after = db(EncodeToString b \<mapsto> e), pipe = Some w\<rparr>"
    "Slug e = EncodeToString b" "Name e = FileName p"
proof (cases rule: UploadHandler_cases [where L = L and s = s and env = env and db = db and r = r])
  case (rejected m c)
  with assms show ?thesis by simp
next
  case (stored p start b w db' res)
  let ?rd = "Part_Read (http_MaxBytesReader (srv_Limit s) (Body r)) (delim_len r) start p"
  from stored(7) assms have res: "res = None"
    by (cases res) auto
  with stored(6) have
    run: "UploadHandler_pipe L s env db (EncodeToString b) (FileName p) ?rd
            \<lparr>written = [], sink_fault = pipe_fault env\<rparr> = (w, db', None)"
    by (auto simp: FileSystem_Create_def split: prod.splits option.splits)
  from UploadHandler_pipe_cases [OF run] obtain e where
    "db' = db(EncodeToString b \<mapsto> e)" "Slug e = EncodeToString b" "Name e = FileName p"
    by (auto split: option.splits)
  with stored(3,5,7) res show ?thesis
    by (intro that [of p start b e w]) auto
qed

text \<open>
  C7. An upload during which the handler reports no error is answered by
  \<open>http.Redirect\<close> with status 303 to the path made of a slash, the slug and the
  extension of the file part's name (\<open>filepath.Ext\<close>), and the same path, ended by a
  newline, is then written as the body.
\<close>

theorem success_redirects_to_slug_and_extension:
  assumes "\<forall>m c. http_Error m c \<notin> set (calls (UploadHandler L s env db r))"
  shows "\<exists>p start b target.
     NextPart_loop (http_MaxBytesReader (srv_Limit s) (Body r)) (delim_len r) 0 (parts r) = Inr (p, start)
     \<and> io_ReadFull 9 (rand_Reader env) = (b, None)
     \<and> target = ''/'' @ EncodeToString b @ filepath_Ext (FileName p)
     \<and> calls (UploadHandler L s env db r) =
          [http_Redirect target 303, io_WriteString (target @ [CHR 0x0A])]"
proof -
  from assms obtain p start b w e where
    "NextPart_loop (http_MaxBytesReader (srv_Limit s) (Body r)) (delim_len r) 0 (parts r) = Inr (p, start)"
    "io_ReadFull 9 (rand_Reader env) = (b, None)"
    "UploadHandler L s env db r =
       \<lparr>calls = [http_Redirect (CHR ''/'' # EncodeToString b @ filepath_Ext (FileName p)) 303,
                 io_WriteString ((CHR ''/'' # EncodeToString b @ filepath_Ext (FileName p)) @ [CHR 0x0A])],
        db_after = db(EncodeToString b \<mapsto> e), pipe = Some w\<rparr>"
    by (rule UploadHandler_redirected)
  then show ?thesis by simp
qed

theorem success_redirects_to_slug_and_extension_witness:
  "(\<forall>m c. http_Error m c \<notin> set (calls (UploadHandler sample_lib sample_server sample_env Map.empty sample_request)))
   \<and> filepath_Ext ''report.final.pdf'' = ''.pdf''
   \<and> calls (UploadHandler sample_lib sample_server sample_env Map.empty sample_request) =
       [http_Redirect ''/AQIDBAUGBwgJ.pdf'' 303, io_WriteString (''/AQIDBAUGBwgJ.pdf'' @ [CHR 0x0A])]"
proof -
  have ok: "\<forall>m c. http_Error m c \<notin> set (calls (UploadHandler sample_lib sample_server sample_env Map.empty sample_request))"
    by (simp add: sample_upload)
  from success_redirects_to_slug_and_extension [OF ok] ok show ?thesis
    by (simp add: sample_upload filepath_Ext_def)
qed

text \<open>
  C8. When the handler redirects, the slug in the target and in the key of the new entry
  is the unpadded base64url text of the first nine bytes of the random source and of
  nothing else: it has twelve characters, all of the URL-safe alphabet.
\<close>

theorem slug_is_twelve_url_safe_characters:
  assumes "\<forall>m c. http_Error m c \<notin> set (calls (UploadHandler L s env db r))"
  shows "\<exists>slug ext e.
     slug = EncodeToString (take 9 (fst (rand_Reader env)))
     \<and> length (take 9 (fst (rand_Reader env))) = 9
     \<and> length slug = 12 \<and> set slug \<subseteq> set encodeURL
     \<and> hd (calls (UploadHandler L s env db r)) = http_Redirect (''/'' @ slug @ ext) 303
     \<and> db_after (UploadHandler L s env db r) = db(slug \<mapsto> e) \<and> Slug e = slug"
proof -
  from assms obtain p start b w e where
    "NextPart_loop (http_MaxBytesReader (srv_Limit s) (Body r)) (delim_len r) 0 (parts r) = Inr (p, start)"
    and rd: "io_ReadFull 9 (rand_Reader env) = (b, None)"
    and out: "UploadHandler L s env db r =
       \<lparr>calls = [http_Redirect (CHR ''/'' # EncodeToString b @ filepath_Ext (FileName p)) 303,
                 io_WriteString ((CHR ''/'' # EncodeToString b @ filepath_Ext (FileName p)) @ [CHR 0x0A])],
        db_after = db(EncodeToString b \<mapsto> e), pipe = Some w\<rparr>"
    and e: "Slug e = EncodeToString b" and "Name e = FileName p"
    by (rule UploadHandler_redirected)
  from io_ReadFull_ok [OF rd] have b: "b = take 9 (fst (rand_Reader env))" and len: "length b = 9"
    by blast+
  from len have "length (EncodeToString b) = 12"
    by (simp add: EncodeToString_length)
  with b len out e EncodeToString_alphabet [of b] show ?thesis
    by (intro exI [of _ "EncodeToString b"] exI [of _ "filepath_Ext (FileName p)"] exI [of _ e]) simp
qed

theorem slug_is_twelve_url_safe_characters_witness:
  "(\<forall>m c. http_Error m c \<notin> set (calls (UploadHandler sample_lib sample_server sample_env Map.empty sample_request)))
   \<and> EncodeToString (take 9 (fst (rand_Reader sample_env))) = ''AQIDBAUGBwgJ''
   \<and> (\<exists>slug ext e.
     slug = EncodeToString (take 9 (fst (rand_Reader sample_env)))
     \<and> length (take 9 (fst (rand_Reader sample_env))) = 9
     \<and> length slug = 12 \<and> set slug \<subseteq> set encodeURL
     \<and> hd (calls (UploadHandler sample_lib sample_server sample_env Map.empty sample_request))
          = http_Redirect (''/'' @ slug @ ext) 303
     \<and> db_after (UploadHandler sample_lib sample_server sample_env Map.empty sample_request)
          = [slug \<mapsto> e] \<and> Slug e = slug)"
proof -
  have ok: "\<forall>m c. http_Error m c \<notin> set (calls (UploadHandler sample_lib sample_server sample_env Map.empty sample_request))"
    by (simp add: sample_upload)
  have slug: "EncodeToString (take 9 (fst (rand_Reader sample_env))) = ''AQIDBAUGBwgJ''"
    by (simp add: sample_env_def enc_def encodeURL_def)
  from slug_is_twelve_url_safe_characters [OF ok] ok slug show ?thesis
    by blast
qed

section \<open>The lifetime of a new entry\<close>

text \<open>
  C9. An entry the handler creates has the one clock reading of the upload as its
  \<open>Timestamp\<close>. With a configured lifetime above zero its \<open>Lifetime\<close> is that same
  reading plus the configured duration; with a configured lifetime of zero (or below)
  its \<open>Lifetime\<close> is nil.
\<close>

theorem entry_lifetime_is_timestamp_plus_configured:
  assumes "db_after (UploadHandler L s env db r) \<noteq> db"
  shows "\<exists>e. db_after (UploadHandler L s env db r) = db(Slug e \<mapsto> e)
     \<and> Timestamp e = upload_Now env
     \<and> (0 < srv_Lifetime s \<longrightarrow> Lifetime e = Some (Timestamp e + srv_Lifetime s))
     \<and> (srv_Lifetime s \<le> 0 \<longrightarrow> Lifetime e = None)"
proof -
  from assms obtain p start b w where
    "NextPart_loop (http_MaxBytesReader (srv_Limit s) (Body r)) (delim_len r) 0 (parts r) = Inr (p, start)"
    "io_ReadFull 9 (rand_Reader env) = (b, None)"
    "pipe (UploadHandler L s env db r) = Some w"
    "written w = content p"
    "db_after (UploadHandler L s env db r) =
          db(EncodeToString b \<mapsto>
             \<lparr>Slug = EncodeToString b, Name = FileName p,
              Sum = EncodeToString (blake3_Sum L (written w)),
              Size = int (length (written w)),
              Timestamp = upload_Now env,
              Lifetime = (if srv_Lifetime s > 0
                          then Some (upload_Now env + srv_Lifetime s) else None)\<rparr>)"
    by (rule UploadHandler_created)
  then show ?thesis
    by (intro exI [of _ "\<lparr>Slug = EncodeToString b, Name = FileName p,
              Sum = EncodeToString (blake3_Sum L (written w)),
              Size = int (length (written w)),
              Timestamp = upload_Now env,
              Lifetime = (if srv_Lifetime s > 0
                          then Some (upload_Now env + srv_Lifetime s) else None)\<rparr>"]) simp
qed

lemma sample_upload_forever:
  "UploadHandler sample_lib (sample_server\<lparr>srv_Lifetime := 0\<rparr>) sample_env Map.empty sample_request =
     \<lparr>calls = [http_Redirect ''/AQIDBAUGBwgJ.pdf'' 303, io_WriteString (''/AQIDBAUGBwgJ.pdf'' @ [CHR 0x0A])],
      db_after = [''AQIDBAUGBwgJ'' \<mapsto>
         \<lparr>Slug = ''AQIDBAUGBwgJ'', Name = ''report.final.pdf'', Sum = ''RkRQJQ'', Size = 4,
          Timestamp = 5000, Lifetime = None\<rparr>],
      pipe = Some \<lparr>written = [0x25, 0x50, 0x44, 0x46], sink_fault = None\<rparr>\<rparr>"
  by (simp add: UploadHandler_def sample_lib_def sample_server_def sample_env_def
      sample_request_def sample_part_def body_len_def Body_def http_MaxBytesReader_def
      io_ReadFull_def Part_Read_def chop_short FileSystem_Create_def UploadHandler_pipe_def
      blake3_New_def MultiWriter_Write_def sink_Write_def hasher_Write_def hasher_Sum_def
      Database_Create_def filepath_Ext_def enc_def encodeURL_def Let_def)

theorem entry_lifetime_is_timestamp_plus_configured_witness:
  "db_after (UploadHandler sample_lib sample_server sample_env Map.empty sample_request) \<noteq> Map.empty
   \<and> 0 < srv_Lifetime sample_server
   \<and> (\<exists>e. db_after (UploadHandler sample_lib sample_server sample_env Map.empty sample_request)
             = [Slug e \<mapsto> e]
          \<and> Timestamp e = 5000 \<and> Lifetime e = Some (Timestamp e + 3600000000000))
   \<and> db_after (UploadHandler sample_lib (sample_server\<lparr>srv_Lifetime := 0\<rparr>) sample_env Map.empty
        sample_request) \<noteq> Map.empty
   \<and> srv_Lifetime (sample_server\<lparr>srv_Lifetime := 0\<rparr>) \<le> 0
   \<and> (\<exists>e. db_after (UploadHandler sample_lib (sample_server\<lparr>srv_Lifetime := 0\<rparr>) sample_env
               Map.empty sample_request) = [Slug e \<mapsto> e]
          \<and> Timestamp e = 5000 \<and> Lifetime e = None)"
proof -
  have c1: "db_after (UploadHandler sample_lib sample_server sample_env Map.empty sample_request) \<noteq> Map.empty"
    by (simp add: sample_upload)
  have c2: "db_after (UploadHandler sample_lib (sample_server\<lparr>srv_Lifetime := 0\<rparr>) sample_env Map.empty
        sample_request) \<noteq> Map.empty"
    by (simp add: sample_upload_forever)
  have l1: "srv_Lifetime sample_server = 3600000000000" and l2: "srv_Lifetime (sample_server\<lparr>srv_Lifetime := 0\<rparr>) = 0"
    and now: "upload_Now sample_env = 5000"
    by (simp_all add: sample_server_def sample_env_def)
  from entry_lifetime_is_timestamp_plus_configured [OF c1]
    entry_lifetime_is_timestamp_plus_configured [OF c2] c1 c2 l1 l2 now
  show ?thesis
    by simp
qed

section \<open>Content-type detection, case by case\<close>

lemma io_ReadFull_length: "length (fst (io_ReadFull n rd)) \<le> min n (length (fst rd))"
  by (cases rd) (auto simp: io_ReadFull_def)

lemma remaining_length: "length (fst (remaining r)) \<le> length (data r)"
  by (auto simp: remaining_def split: option.splits)

lemma stream_ReadFull_facts:
  assumes "stream_ReadFull n r = (b, err, r1)"
  shows "length b \<le> min n (length (data r))" "nread r1 = nread r + length b"
    "data r1 = data r" "Seek_err r1 = Seek_err r" "offset r1 = offset r + length b"
proof -
  from assms have b: "b = fst (io_ReadFull n (remaining r))"
    and r1: "r1 = r\<lparr>offset := offset r + length b, nread := nread r + length b\<rparr>"
    by (auto simp: stream_ReadFull_def split: prod.splits)
  from io_ReadFull_length [of n "remaining r"] remaining_length [of r] b
  show "length b \<le> min n (length (data r))" by simp
  from r1 show "nread r1 = nread r + length b" "data r1 = data r" "Seek_err r1 = Seek_err r"
    "offset r1 = offset r + length b"
    by simp_all
qed

lemma stream_ReadFull_whole:
  assumes "offset r = 0" "read_fault r = None"
  shows "fst (stream_ReadFull n r) = take n (data r)"
  using assms by (auto simp: stream_ReadFull_def remaining_def io_ReadFull_def split: prod.splits)

lemma detectContentType_cases:
  obtains
    (seek_failed) b err r1 e where "stream_ReadFull 3072 r = (b, err, r1)" "Seek_err r = Some e"
      "detectContentType L name r = (Inl (ErrNew (''seeker can'' @ [CHR 0x27] @ ''t seek'')), r1)"
  | (by_extension) b err r1 where "stream_ReadFull 3072 r = (b, err, r1)" "Seek_err r = None"
      "mime_Is L (mimetype_Detect L b) ''application/octet-stream''"
      "mime_TypeByExtension L (filepath_Ext name) \<noteq> []"
      "detectContentType L name r = (Inr (mime_TypeByExtension L (filepath_Ext name)), r1\<lparr>offset := 0\<rparr>)"
  | (sniffed) b err r1 where "stream_ReadFull 3072 r = (b, err, r1)" "Seek_err r = None"
      "\<not> mime_Is L (mimetype_Detect L b) ''application/octet-stream''
         \<or> mime_TypeByExtension L (filepath_Ext name) = []"
      "detectContentType L name r = (Inr (mime_String L (mimetype_Detect L b)), r1\<lparr>offset := 0\<rparr>)"
proof -
  obtain b err r1 where rd: "stream_ReadFull 3072 r = (b, err, r1)"
    by (metis prod.exhaust)
  then have sk: "Seek_err r1 = Seek_err r" by (rule stream_ReadFull_facts)
  show ?thesis
  proof (cases "Seek_err r")
    case (Some e)
    with rd sk show ?thesis
      by (intro seek_failed [of b err r1 e]) (simp_all add: detectContentType_def Seek_start_def)
  next
    case None
    show ?thesis
    proof (cases "mime_Is L (mimetype_Detect L b) ''application/octet-stream''
                    \<and> mime_TypeByExtension L (filepath_Ext name) \<noteq> []")
      case True
      with rd sk None show ?thesis
        by (intro by_extension [of b err r1]) (simp_all add: detectContentType_def Seek_start_def)
    next
      case False
      with rd sk None show ?thesis
        by (intro sniffed [of b err r1]) (auto simp: detectContentType_def Seek_start_def Let_def)
    qed
  qed
qed

section \<open>What content-type detection reads and returns\<close>

text \<open>
  C5. On a stream whose \<open>Seek\<close> works, for every file name, detection succeeds, has read
  at most \<open>min N 3072\<close> bytes of the \<open>N\<close> the stream holds, and leaves the read
  position at the start. When the sniffer calls the bytes read
  \<open>application/octet-stream\<close> and the extension table has a type for the extension of
  the name, that type is the result.
\<close>

theorem detectContentType_sniffs_prefix_and_rewinds:
  assumes "Seek_err r = None"
  shows "\<exists>ctype r'. detectContentType L name r = (Inr ctype, r')
     \<and> nread r \<le> nread r' \<and> nread r' - nread r \<le> min (length (data r)) 3072
     \<and> offset r' = 0 \<and> data r' = data r
     \<and> (mime_Is L (mimetype_Detect L (fst (stream_ReadFull 3072 r))) ''application/octet-stream''
          \<and> mime_TypeByExtension L (filepath_Ext name) \<noteq> []
        \<longrightarrow> ctype = mime_TypeByExtension L (filepath_Ext name))"
proof (cases rule: detectContentType_cases [where L = L and name = name and r = r])
  case (seek_failed b err r1 e)
  with assms show ?thesis by simp
next
  case (by_extension b err r1)
  from stream_ReadFull_facts [OF by_extension(1)] by_extension(5) show ?thesis
    by auto
next
  case (sniffed b err r1)
  from stream_ReadFull_facts [OF sniffed(1)] sniffed(1,3,4) show ?thesis
    by auto
qed

lemma sample_detect_pdf:
  "detectContentType sample_lib ''report.final.pdf'' (sample_blob [0x25, 0x50, 0x44, 0x46])
     = (Inr ''application/pdf'',
        \<lparr>data = [0x25, 0x50, 0x44, 0x46], offset = 0, read_fault = None, Seek_err = None, nread = 4\<rparr>)"
  by (simp add: detectContentType_def stream_ReadFull_def remaining_def io_ReadFull_def
      Seek_start_def sample_blob_def sample_lib_def filepath_Ext_def)

theorem detectContentType_sniffs_prefix_and_rewinds_witness:
  "Seek_err (sample_blob [0x25, 0x50, 0x44, 0x46]) = None
   \<and> mime_Is sample_lib
        (mimetype_Detect sample_lib (fst (stream_ReadFull 3072 (sample_blob [0x25, 0x50, 0x44, 0x46]))))
        ''application/octet-stream''
   \<and> mime_TypeByExtension sample_lib (filepath_Ext ''report.final.pdf'') \<noteq> []
   \<and> (\<exists>r'. detectContentType sample_lib ''report.final.pdf'' (sample_blob [0x25, 0x50, 0x44, 0x46])
              = (Inr ''application/pdf'', r')
          \<and> nread r' - nread (sample_blob [0x25, 0x50, 0x44, 0x46]) \<le> min 4 3072
          \<and> offset r' = 0)"
proof -
  have sk: "Seek_err (sample_blob [0x25, 0x50, 0x44, 0x46]) = None"
    by (simp add: sample_blob_def)
  have oct: "mime_Is sample_lib
        (mimetype_Detect sample_lib (fst (stream_ReadFull 3072 (sample_blob [0x25, 0x50, 0x44, 0x46]))))
        ''application/octet-stream''"
    by (simp add: stream_ReadFull_def remaining_def io_ReadFull_def sample_blob_def sample_lib_def)
  have ext: "mime_TypeByExtension sample_lib (filepath_Ext ''report.final.pdf'') = ''application/pdf''"
    by (simp add: sample_lib_def filepath_Ext_def)
  have len: "length (data (sample_blob [0x25, 0x50, 0x44, 0x46])) = 4"
    by (simp add: sample_blob_def)
  from detectContentType_sniffs_prefix_and_rewinds [OF sk, of sample_lib "''report.final.pdf''"]
    sk oct ext len
  show ?thesis
    by auto
qed

text \<open>
  C10. When the sniffer calls the bytes read \<open>application/octet-stream\<close> and the
  extension table has nothing for the extension of the name, the result is the sniffed
  type itself. Detection fails exactly when \<open>Seek\<close> fails. The result is never the empty
  type, given that the sniffing library names the type it found (its \<open>String\<close> is not
  empty): an empty answer of the extension table is never passed on.
\<close>

theorem detectContentType_falls_back_to_sniffed_type:
  "(Seek_err r = None
      \<and> mime_Is L (mimetype_Detect L (fst (stream_ReadFull 3072 r))) ''application/octet-stream''
      \<and> mime_TypeByExtension L (filepath_Ext name) = []
    \<longrightarrow> fst (detectContentType L name r)
          = Inr (mime_String L (mimetype_Detect L (fst (stream_ReadFull 3072 r)))))
   \<and> ((\<exists>e. fst (detectContentType L name r) = Inl e) \<longleftrightarrow> Seek_err r \<noteq> None)
   \<and> (mime_String L (mimetype_Detect L (fst (stream_ReadFull 3072 r))) \<noteq> []
      \<longrightarrow> fst (detectContentType L name r) \<noteq> Inr [])"
proof (cases rule: detectContentType_cases [where L = L and name = name and r = r])
  case (seek_failed b err r1 e)
  then show ?thesis by simp
next
  case (by_extension b err r1)
  then show ?thesis by simp
next
  case (sniffed b err r1)
  then show ?thesis by auto
qed

lemma sample_detect_unknown:
  "detectContentType sample_lib ''notes.xyz'' (sample_blob [1, 2, 3])
     = (Inr ''application/octet-stream'',
        \<lparr>data = [1, 2, 3], offset = 0, read_fault = None, Seek_err = None, nread = 3\<rparr>)"
  by (simp add: detectContentType_def stream_ReadFull_def remaining_def io_ReadFull_def
      Seek_start_def sample_blob_def sample_lib_def filepath_Ext_def)

theorem detectContentType_falls_back_to_sniffed_type_witness:
  "Seek_err (sample_blob [1, 2, 3]) = None
   \<and> mime_Is sample_lib (mimetype_Detect sample_lib (fst (stream_ReadFull 3072 (sample_blob [1, 2, 3]))))
        ''application/octet-stream''
   \<and> mime_TypeByExtension sample_lib (filepath_Ext ''notes.xyz'') = []
   \<and> mime_String sample_lib (mimetype_Detect sample_lib (fst (stream_ReadFull 3072 (sample_blob [1, 2, 3]))))
        = ''application/octet-stream''
   \<and> fst (detectContentType sample_lib ''notes.xyz'' (sample_blob [1, 2, 3]))
        = Inr ''application/octet-stream''
   \<and> fst (detectContentType sample_lib ''notes.xyz'' (sample_blob [1, 2, 3])) \<noteq> Inr []
   \<and> (\<nexists>e. fst (detectContentType sample_lib ''notes.xyz'' (sample_blob [1, 2, 3])) = Inl e)"
proof -
  have sk: "Seek_err (sample_blob [1, 2, 3]) = None"
    by (simp add: sample_blob_def)
  have sn: "mimetype_Detect sample_lib (fst (stream_ReadFull 3072 (sample_blob [1, 2, 3])))
              = ''application/octet-stream''"
    by (simp add: stream_ReadFull_def remaining_def io_ReadFull_def sample_blob_def sample_lib_def)
  have lib: "mime_Is sample_lib ''application/octet-stream'' ''application/octet-stream''"
    "mime_String sample_lib ''application/octet-stream'' = ''application/octet-stream''"
    "mime_TypeByExtension sample_lib (filepath_Ext ''notes.xyz'') = []"
    by (simp_all add: sample_lib_def filepath_Ext_def)
  from detectContentType_falls_back_to_sniffed_type [of "sample_blob [1, 2, 3]" sample_lib "''notes.xyz''"]
    sk sn lib
  show ?thesis
    by simp
qed

section \<open>The headers of a served entry\<close>

lemma Open_entry_served:
  assumes "Open_entry L env db path = (hs, Ok file)"
  obtains name e cache f ctype f' where
    "path_Split path = (''/'', name)"
    "Database_Lookup (Database_Lookup_err env) db (takeWhile (\<lambda>c. c \<noteq> CHR ''.'') name) = Inr e"
    "cache_control (serve_Now env) e = Some cache"
    "FileSystem_Open env (Slug e) = Inr f"
    "detectContentType L (Name e) f = (Inr ctype, f')"
    "file = EntryFile f' e"
    "hs = [Header_Set ''Cache-Control'' cache,
           Header_Set ''Content-Disposition''
             (''filename='' @ fmt_q L (url_PathEscape L (Name e)) @ ''; filename*=UTF-8''
                @ [CHR 0x27, CHR 0x27] @ url_PathEscape L (Name e)),
           Header_Set ''Content-Type'' (html_to_plain ctype),
           Header_Set ''Etag'' (strconv_Quote L (Sum e))]
          @ (case Lifetime e of None \<Rightarrow> [] | Some l \<Rightarrow> [Header_Set ''Expires'' (Format_TimeFormat L l)])
          @ [Header_Set ''X-Content-Type-Options'' ''nosniff'']"
  using assms
  by (auto simp: Open_entry_def Let_def split: prod.splits if_splits sum.splits option.splits)

lemma Open_entry_found:
  assumes "path_Split path = (''/'', name)"
    and "Database_Lookup_err env = None"
    and "db (takeWhile (\<lambda>c. c \<noteq> CHR ''.'') name) = Some e"
  shows "Open_entry L env db path =
     (case cache_control (serve_Now env) e of
        None \<Rightarrow> ([], Err ErrNotExist)
      | Some cache \<Rightarrow>
         (case FileSystem_Open env (Slug e) of
            Inl err \<Rightarrow> ([], Err err)
          | Inr f \<Rightarrow>
             (case detectContentType L (Name e) f of
                (Inl err, f') \<Rightarrow> ([], Err (Wrapf ''detect content type'' err))
              | (Inr ctype, f') \<Rightarrow>
                 ([Header_Set ''Cache-Control'' cache,
                   Header_Set ''Content-Disposition''
                     (''filename='' @ fmt_q L (url_PathEscape L (Name e)) @ ''; filename*=UTF-8''
                        @ [CHR 0x27, CHR 0x27] @ url_PathEscape L (Name e)),
                   Header_Set ''Content-Type'' (html_to_plain ctype),
                   Header_Set ''Etag'' (strconv_Quote L (Sum e))]
                  @ (case Lifetime e of None \<Rightarrow> [] | Some l \<Rightarrow> [Header_Set ''Expires'' (Format_TimeFormat L l)])
                  @ [Header_Set ''X-Content-Type-Options'' ''nosniff''],
                  Ok (EntryFile f' e)))))"
  using assms
  by (simp add: Open_entry_def Database_Lookup_def Let_def split: prod.splits sum.splits option.splits)

lemma html_to_plain_html: "html_to_plain (''text/html'' @ rest) = ''text/plain'' @ rest"
  by (simp add: html_to_plain_def strings_HasPrefix_def)

lemma html_to_plain_other: "(\<nexists>rest. ctype = ''text/html'' @ rest) \<Longrightarrow> html_to_plain ctype = ctype"
proof -
  assume no: "\<nexists>rest. ctype = ''text/html'' @ rest"
  have "\<not> strings_HasPrefix ctype ''text/html''"
  proof
    assume "strings_HasPrefix ctype ''text/html''"
    then have "take (length ''text/html'') ctype = ''text/html''"
      by (simp add: strings_HasPrefix_def)
    then have "ctype = ''text/html'' @ drop (length ''text/html'') ctype"
      by (metis append_take_drop_id)
    with no show False by blast
  qed
  then show ?thesis by (simp add: html_to_plain_def)
qed

text \<open>
  C4. For an entry that is served, the one \<open>Content-Type\<close> header set is made from the
  detected type: a detected type that begins with \<open>text/html\<close> is served as
  \<open>text/plain\<close> followed by the rest of the detected type unchanged, any other type is
  served as it is.
\<close>

theorem html_is_served_as_plain_text:
  assumes "Open_entry L env db path = (hs, Ok file)"
  shows "\<exists>e f f' ctype.
     file = EntryFile f' e \<and> FileSystem_Open env (Slug e) = Inr f
     \<and> detectContentType L (Name e) f = (Inr ctype, f')
     \<and> (\<forall>rest. ctype = ''text/html'' @ rest \<longrightarrow>
           (\<forall>v. Header_Set ''Content-Type'' v \<in> set hs \<longleftrightarrow> v = ''text/plain'' @ rest))
     \<and> ((\<nexists>rest. ctype = ''text/html'' @ rest) \<longrightarrow>
           (\<forall>v. Header_Set ''Content-Type'' v \<in> set hs \<longleftrightarrow> v = ctype))"
proof -
  from assms obtain name e cache f ctype f' where
    "path_Split path = (''/'', name)"
    "Database_Lookup (Database_Lookup_err env) db (takeWhile (\<lambda>c. c \<noteq> CHR ''.'') name) = Inr e"
    "cache_control (serve_Now env) e = Some cache"
    and f: "FileSystem_Open env (Slug e) = Inr f"
    and ct: "detectContentType L (Name e) f = (Inr ctype, f')"
    and fl: "file = EntryFile f' e"
    and hs: "hs = [Header_Set ''Cache-Control'' cache,
           Header_Set ''Content-Disposition''
             (''filename='' @ fmt_q L (url_PathEscape L (Name e)) @ ''; filename*=UTF-8''
                @ [CHR 0x27, CHR 0x27] @ url_PathEscape L (Name e)),
           Header_Set ''Content-Type'' (html_to_plain ctype),
           Header_Set ''Etag'' (strconv_Quote L (Sum e))]
          @ (case Lifetime e of None \<Rightarrow> [] | Some l \<Rightarrow> [Header_Set ''Expires'' (Format_TimeFormat L l)])
          @ [Header_Set ''X-Content-Type-Options'' ''nosniff'']"
    by (rule Open_entry_served)
  from hs have only: "\<And>v. Header_Set ''Content-Type'' v \<in> set hs \<longleftrightarrow> v = html_to_plain ctype"
    by (auto split: option.splits)
  have "(\<forall>rest. ctype = ''text/html'' @ rest \<longrightarrow>
           (\<forall>v. Header_Set ''Content-Type'' v \<in> set hs \<longleftrightarrow> v = ''text/plain'' @ rest))"
    using only html_to_plain_html by simp
  moreover have "((\<nexists>rest. ctype = ''text/html'' @ rest) \<longrightarrow>
           (\<forall>v. Header_Set ''Content-Type'' v \<in> set hs \<longleftrightarrow> v = ctype))"
    using only html_to_plain_other by simp
  ultimately show ?thesis
    using f ct fl by blast
qed

lemma sample_lib_fields:
  "url_PathEscape sample_lib s = s"
  "fmt_q sample_lib s = [CHR 0x22] @ s @ [CHR 0x22]"
  "strconv_Quote sample_lib s = [CHR 0x22] @ s @ [CHR 0x22]"
  "Format_TimeFormat sample_lib t = fmt_d t"
  by (simp_all add: sample_lib_def)

lemma sample_path: "path_Split ''/AQIDBAUGBwgJ.pdf'' = (''/'', ''AQIDBAUGBwgJ.pdf'')"
  by (simp add: path_Split_def)

lemma sample_detect_html:
  "detectContentType sample_lib ''report.final.pdf'' (sample_blob [0x3C, 0x68, 0x31, 0x3E])
     = (Inr ''text/html; charset=utf-8'',
        \<lparr>data = [0x3C, 0x68, 0x31, 0x3E], offset = 0, read_fault = None, Seek_err = None, nread = 4\<rparr>)"
  by (simp add: detectContentType_def stream_ReadFull_def remaining_def io_ReadFull_def
      Seek_start_def sample_blob_def sample_lib_def filepath_Ext_def)

lemma sample_serve_forever:
  "Open_entry sample_lib (sample_serve_env 0 bs) [''AQIDBAUGBwgJ'' \<mapsto> sample_entry\<lparr>Lifetime := None\<rparr>]
       ''/AQIDBAUGBwgJ.pdf'' =
     (case detectContentType sample_lib ''report.final.pdf'' (sample_blob bs) of
        (Inl err, f') \<Rightarrow> ([], Err (Wrapf ''detect content type'' err))
      | (Inr ctype, f') \<Rightarrow>
     ([Header_Set ''Cache-Control'' ''max-age=31536000'',
       Header_Set ''Content-Disposition''
         (''filename='' @ [CHR 0x22] @ ''report.final.pdf'' @ [CHR 0x22] @ ''; filename*=UTF-8''
            @ [CHR 0x27, CHR 0x27] @ ''report.final.pdf''),
       Header_Set ''Content-Type'' (html_to_plain ctype),
       Header_Set ''Etag'' ([CHR 0x22] @ ''RkRQJQ'' @ [CHR 0x22]),
       Header_Set ''X-Content-Type-Options'' ''nosniff''],
      Ok (EntryFile f' (sample_entry\<lparr>Lifetime := None\<rparr>))))"
proof -
  let ?e = "sample_entry\<lparr>Lifetime := None\<rparr>"
  have env: "Database_Lookup_err (sample_serve_env 0 bs) = None" "serve_Now (sample_serve_env 0 bs) = 0"
    "\<And>s. FileSystem_Open (sample_serve_env 0 bs) s = Inr (sample_blob bs)"
    by (simp_all add: sample_serve_env_def)
  have db: "[''AQIDBAUGBwgJ'' \<mapsto> ?e] (takeWhile (\<lambda>c. c \<noteq> CHR ''.'') ''AQIDBAUGBwgJ.pdf'') = Some ?e"
    by simp
  have e: "Name ?e = ''report.final.pdf''" "Sum ?e = ''RkRQJQ''" "Lifetime ?e = None"
    "Slug ?e = ''AQIDBAUGBwgJ''"
    by (simp_all add: sample_entry_def)
  have cc: "cache_control 0 ?e = Some ''max-age=31536000''"
    by (simp add: cache_control_def e)
  show ?thesis
    unfolding Open_entry_found [where db = "[''AQIDBAUGBwgJ'' \<mapsto> ?e]" and e = ?e,
        OF sample_path env(1) db] env cc e sample_lib_fields
    by (simp split: prod.splits sum.splits)
qed

theorem html_is_served_as_plain_text_witness:
  "(\<exists>hs f'. Open_entry sample_lib (sample_serve_env 0 [0x3C, 0x68, 0x31, 0x3E])
        [''AQIDBAUGBwgJ'' \<mapsto> sample_entry\<lparr>Lifetime := None\<rparr>] ''/AQIDBAUGBwgJ.pdf''
      = (hs, Ok (EntryFile f' (sample_entry\<lparr>Lifetime := None\<rparr>)))
    \<and> detectContentType sample_lib ''report.final.pdf'' (sample_blob [0x3C, 0x68, 0x31, 0x3E])
        = (Inr (''text/html'' @ ''; charset=utf-8''), f')
    \<and> (\<forall>v. Header_Set ''Content-Type'' v \<in> set hs \<longleftrightarrow> v = ''text/plain'' @ ''; charset=utf-8''))
   \<and> (\<exists>hs f'. Open_entry sample_lib (sample_serve_env 0 [0x25, 0x50, 0x44, 0x46])
        [''AQIDBAUGBwgJ'' \<mapsto> sample_entry\<lparr>Lifetime := None\<rparr>] ''/AQIDBAUGBwgJ.pdf''
      = (hs, Ok (EntryFile f' (sample_entry\<lparr>Lifetime := None\<rparr>)))
    \<and> detectContentType sample_lib ''report.final.pdf'' (sample_blob [0x25, 0x50, 0x44, 0x46])
        = (Inr ''application/pdf'', f')
    \<and> (\<nexists>rest. ''application/pdf'' = ''text/html'' @ rest)
    \<and> (\<forall>v. Header_Set ''Content-Type'' v \<in> set hs \<longleftrightarrow> v = ''application/pdf''))"
proof -
  let ?db = "[''AQIDBAUGBwgJ'' \<mapsto> sample_entry\<lparr>Lifetime := None\<rparr>]"
  let ?e = "sample_entry\<lparr>Lifetime := None\<rparr>"
  have slug: "Slug ?e = ''AQIDBAUGBwgJ''" and name: "Name ?e = ''report.final.pdf''"
    by (simp_all add: sample_entry_def)
  have blob: "\<And>bs s. FileSystem_Open (sample_serve_env 0 bs) s = Inr (sample_blob bs)"
    by (simp add: sample_serve_env_def)
  obtain hs1 f1 where o1: "Open_entry sample_lib (sample_serve_env 0 [0x3C, 0x68, 0x31, 0x3E]) ?db
      ''/AQIDBAUGBwgJ.pdf'' = (hs1, Ok (EntryFile f1 ?e))"
    and d1: "detectContentType sample_lib ''report.final.pdf'' (sample_blob [0x3C, 0x68, 0x31, 0x3E])
        = (Inr (''text/html'' @ ''; charset=utf-8''), f1)"
    by (simp add: sample_serve_forever sample_detect_html)
  obtain hs2 f2 where o2: "Open_entry sample_lib (sample_serve_env 0 [0x25, 0x50, 0x44, 0x46]) ?db
      ''/AQIDBAUGBwgJ.pdf'' = (hs2, Ok (EntryFile f2 ?e))"
    and d2: "detectContentType sample_lib ''report.final.pdf'' (sample_blob [0x25, 0x50, 0x44, 0x46])
        = (Inr ''application/pdf'', f2)"
    by (simp add: sample_serve_forever sample_detect_pdf)
  have other: "\<nexists>rest. ''application/pdf'' = ''text/html'' @ rest"
    by simp
  from html_is_served_as_plain_text [OF o1] slug name blob d1
  have c1: "\<forall>v. Header_Set ''Content-Type'' v \<in> set hs1 \<longleftrightarrow> v = ''text/plain'' @ ''; charset=utf-8''"
    by auto
  from html_is_served_as_plain_text [OF o2] slug name blob d2 other
  have c2: "\<forall>v. Header_Set ''Content-Type'' v \<in> set hs2 \<longleftrightarrow> v = ''application/pdf''"
    by auto
  from o1 d1 c1 o2 d2 c2 other show ?thesis
    by blast
qed

section \<open>Rounding to float64\<close>

lemma pow2_powi: "pow2 k = 2 powi k"
  by (simp add: pow2_def power_int_def inverse_eq_divide power_one_over)

lemma pow2_pos: "0 < pow2 k"
  by (simp add: pow2_powi)

lemma pow2_add: "pow2 (i + j) = pow2 i * pow2 j"
  by (simp add: pow2_powi power_int_add)

lemma pow2_strict_mono: "i < j \<Longrightarrow> pow2 i < pow2 j"
  by (simp add: pow2_powi power_int_strict_increasing)

lemma pow2_less_cancel: "pow2 i < pow2 j \<Longrightarrow> i < j"
  by (metis pow2_strict_mono less_asym' linorder_neqE_linordered_idom order_less_irrefl)

lemma pow2_nat: "0 \<le> k \<Longrightarrow> pow2 k = 2 ^ nat k"
  by (simp add: pow2_def)

lemma ilog2_bounds:
  assumes "0 < a"
  shows "pow2 (ilog2 a) \<le> a \<and> a < pow2 (ilog2 a + 1)"
proof -
  obtain p q where pq: "quotient_of a = (p, q)" by (cases "quotient_of a")
  then have q: "0 < q" and a: "a = of_int p / of_int q"
    using quotient_of_denom_pos quotient_of_div by blast+
  with assms have p: "0 < p"
    by (simp add: zero_less_divide_iff)
  define bp bq where "bp = bitlen p" and "bq = bitlen q"
  from bitlen_bounds [OF p] have p1: "2 ^ nat (bp - 1) \<le> p" and p2: "p < 2 ^ nat bp"
    by (simp_all add: bp_def)
  from bitlen_bounds [OF q] have q1: "2 ^ nat (bq - 1) \<le> q" and q2: "q < 2 ^ nat bq"
    by (simp_all add: bq_def)
  have bp: "1 \<le> bp" and bq: "1 \<le> bq"
    using p q by (simp_all add: bp_def bq_def bitlen_alt_def)
  have P1: "pow2 (bp - 1) \<le> of_int p"
  proof -
    have "(of_int (2 ^ nat (bp - 1)) :: rat) \<le> of_int p"
      using p1 by (simp only: of_int_le_iff)
    then show ?thesis using bp by (simp add: pow2_nat)
  qed
  have P2: "of_int p < pow2 bp"
  proof -
    have "(of_int p :: rat) < of_int (2 ^ nat bp)"
      using p2 by (simp only: of_int_less_iff)
    then show ?thesis using bp by (simp add: pow2_nat)
  qed
  have Q1: "pow2 (bq - 1) \<le> of_int q"
  proof -
    have "(of_int (2 ^ nat (bq - 1)) :: rat) \<le> of_int q"
      using q1 by (simp only: of_int_le_iff)
    then show ?thesis using bq by (simp add: pow2_nat)
  qed
  have Q2: "of_int q < pow2 bq"
  proof -
    have "(of_int q :: rat) < of_int (2 ^ nat bq)"
      using q2 by (simp only: of_int_less_iff)
    then show ?thesis using bq by (simp add: pow2_nat)
  qed
  have Q: "0 < (of_int q :: rat)" using q by simp
  have e1: "pow2 (bp - bq - 1) * pow2 bq = pow2 (bp - 1)"
    using pow2_add [of "bp - bq - 1" bq] by simp
  have e2: "pow2 (bp - bq + 1) * pow2 (bq - 1) = pow2 bp"
    using pow2_add [of "bp - bq + 1" "bq - 1"] by simp
  have lower: "pow2 (bp - bq - 1) < a"
  proof -
    have "pow2 (bp - bq - 1) * of_int q < pow2 (bp - bq - 1) * pow2 bq"
      using Q2 pow2_pos [of "bp - bq - 1"] by (simp only: mult_less_cancel_left_pos)
    also have "\<dots> = pow2 (bp - 1)" by (rule e1)
    also have "\<dots> \<le> of_int p" by (rule P1)
    finally have "pow2 (bp - bq - 1) * of_int q < of_int p" .
    then show ?thesis using Q by (simp only: a pos_less_divide_eq)
  qed
  have upper: "a < pow2 (bp - bq + 1)"
  proof -
    have "of_int p < pow2 bp" by (rule P2)
    also have "\<dots> = pow2 (bp - bq + 1) * pow2 (bq - 1)" by (rule e2 [symmetric])
    also have "\<dots> \<le> pow2 (bp - bq + 1) * of_int q"
      using Q1 pow2_pos [of "bp - bq + 1"] by (simp only: mult_le_cancel_left_pos)
    finally have "of_int p < pow2 (bp - bq + 1) * of_int q" .
    then show ?thesis using Q by (simp only: a pos_divide_less_eq)
  qed
  show ?thesis
  proof (cases "pow2 (bp - bq) \<le> a")
    case True
    then have "ilog2 a = bp - bq"
      by (simp add: ilog2_def pq bp_def bq_def)
    with True upper show ?thesis by simp
  next
    case False
    then have "ilog2 a = bp - bq - 1"
      by (simp add: ilog2_def pq bp_def bq_def)
    with False lower show ?thesis by simp
  qed
qed

lemma ilog2_unique:
  assumes "0 < a" "pow2 e \<le> a" "a < pow2 (e + 1)"
  shows "ilog2 a = e"
proof -
  from ilog2_bounds [OF assms(1)] have lo: "pow2 (ilog2 a) \<le> a" and hi: "a < pow2 (ilog2 a + 1)"
    by simp_all
  from lo assms(3) have "pow2 (ilog2 a) < pow2 (e + 1)" by simp
  then have "ilog2 a < e + 1" by (rule pow2_less_cancel)
  moreover from assms(2) hi have "pow2 e < pow2 (ilog2 a + 1)" by simp
  then have "e < ilog2 a + 1" by (rule pow2_less_cancel)
  ultimately show ?thesis by simp
qed

lemma round_even_of_int: "round_even (of_int m) = m"
  by (simp add: round_even_def)

lemma round_even_ge: "of_int a \<le> q \<Longrightarrow> a \<le> round_even q"
proof -
  assume "of_int a \<le> q"
  then have "a \<le> \<lfloor>q\<rfloor>" by (simp add: le_floor_iff)
  moreover have "\<lfloor>q\<rfloor> \<le> round_even q" by (simp add: round_even_def Let_def)
  ultimately show ?thesis by simp
qed

lemma round_even_le: "q \<le> of_int b \<Longrightarrow> round_even q \<le> b"
proof -
  assume le: "q \<le> of_int b"
  show ?thesis
  proof (cases "q = of_int b")
    case True
    then show ?thesis by (simp add: round_even_of_int)
  next
    case False
    with le have "q < of_int b" by simp
    then have "\<lfloor>q\<rfloor> < b" by (simp add: floor_less_iff)
    then have "\<lfloor>q\<rfloor> + 1 \<le> b" by simp
    then show ?thesis by (auto simp: round_even_def Let_def)
  qed
qed

lemma float64_pos:
  assumes "0 < x" "pow2 e \<le> x" "x < pow2 (e + 1)"
  shows "float64 x = of_int (round_even (x * pow2 (52 - e))) * pow2 (e - 52)"
  using assms ilog2_unique [OF assms] by (simp add: float64_def)

lemma pow2_cancel: "pow2 (e - 52) * pow2 (52 - e) = 1"
  using pow2_add [of "e - 52" "52 - e"] by (simp add: pow2_def)

lemma grid_scale: "y * pow2 (e - 52) * pow2 (52 - e) = y"
  by (simp only: mult.assoc pow2_cancel mult_1_right)

text \<open>Between two numbers of the grid at the exponent of \<open>x\<close>, rounding stays between them.\<close>

lemma float64_between:
  assumes "0 < x" "pow2 e \<le> x" "x < pow2 (e + 1)"
    and "of_int a * pow2 (e - 52) \<le> x" "x \<le> of_int b * pow2 (e - 52)"
  shows "of_int a * pow2 (e - 52) \<le> float64 x \<and> float64 x \<le> of_int b * pow2 (e - 52)"
proof -
  have pos: "0 < pow2 (52 - e)" "0 < pow2 (e - 52)" by (rule pow2_pos)+
  have "of_int a * pow2 (e - 52) * pow2 (52 - e) \<le> x * pow2 (52 - e)"
    using assms(4) pos(1) by (simp only: mult_le_cancel_right_pos)
  then have "of_int a \<le> x * pow2 (52 - e)"
    by (simp only: grid_scale)
  then have a: "a \<le> round_even (x * pow2 (52 - e))" by (rule round_even_ge)
  have "x * pow2 (52 - e) \<le> of_int b * pow2 (e - 52) * pow2 (52 - e)"
    using assms(5) pos(1) by (simp only: mult_le_cancel_right_pos)
  then have "x * pow2 (52 - e) \<le> of_int b"
    by (simp only: grid_scale)
  then have b: "round_even (x * pow2 (52 - e)) \<le> b" by (rule round_even_le)
  from a b pos(2) show ?thesis
    unfolding float64_pos [OF assms(1-3)]
    by (simp only: mult_le_cancel_right_pos of_int_le_iff)
qed

lemma pow2_numeral: "pow2 53 = 2 ^ 53" "pow2 52 = 2 ^ 52" "pow2 0 = 1"
  by (simp_all add: pow2_def)

lemma pow2_grid:
  assumes "e \<le> 52"
  shows "of_int (k * 2 ^ nat (52 - e)) * pow2 (e - 52) = of_int k"
proof -
  from assms have "pow2 (52 - e) = of_int (2 ^ nat (52 - e))"
    by (simp add: pow2_nat)
  then have "of_int (k * 2 ^ nat (52 - e)) * pow2 (e - 52) = of_int k * pow2 (52 - e) * pow2 (e - 52)"
    by simp
  also have "\<dots> = of_int k * (pow2 (e - 52) * pow2 (52 - e))"
    by (simp add: ac_simps)
  finally show ?thesis by (simp only: pow2_cancel mult_1_right)
qed

lemma seconds_small:
  assumes "0 \<le> (d::int)" "d < 2 ^ 63"
  shows "0 \<le> d div 1000000000" "d div 1000000000 < 2 ^ 52"
    "0 \<le> d mod 1000000000" "d mod 1000000000 < 1000000000" "d mod 1000000000 < 2 ^ 53"
proof -
  from assms have d: "0 \<le> d" "d < 9223372036854775808" by simp_all
  from d show "0 \<le> d div 1000000000" by linarith
  from d have "d div 1000000000 < 4503599627370496" by linarith
  then show "d div 1000000000 < 2 ^ 52" by simp
  show "0 \<le> d mod 1000000000" "d mod 1000000000 < 1000000000" by simp_all
  have "d mod 1000000000 < 1000000000" by simp
  then have "d mod 1000000000 < 9007199254740992" by linarith
  then show "d mod 1000000000 < 2 ^ 53" by simp
qed

lemma sdiv_smod_nonneg:
  assumes "0 \<le> (d::int)" "0 < n"
  shows "d sdiv n = d div n" "d smod n = d mod n"
  using assms by (simp_all add: signed_divide_int_def signed_modulo_int_def sgn_if)

text \<open>Below \<open>2 ^ 53\<close> rounding does not cross an integer, and integers are exact.\<close>

lemma float64_int_between:
  assumes "0 < x" "x < 2 ^ 53" "of_int lo \<le> x" "x \<le> of_int hi"
  shows "of_int lo \<le> float64 x \<and> float64 x \<le> of_int hi"
proof -
  define e where "e = ilog2 x"
  from ilog2_bounds [OF assms(1)] have lo: "pow2 e \<le> x" and hi: "x < pow2 (e + 1)"
    by (simp_all add: e_def)
  from lo assms(2) have "pow2 e < pow2 53" by (simp add: pow2_numeral)
  then have "e < 53" by (rule pow2_less_cancel)
  then have e: "e \<le> 52" by simp
  from float64_between [OF assms(1) lo hi, of "lo * 2 ^ nat (52 - e)" "hi * 2 ^ nat (52 - e)"]
    assms(3,4)
  show ?thesis
    by (simp only: pow2_grid [OF e])
qed

lemma float64_of_int:
  assumes "0 \<le> k" "k < 2 ^ 53"
  shows "float64 (of_int k) = of_int k"
proof (cases "k = 0")
  case True
  then show ?thesis by (simp add: float64_def)
next
  case False
  with assms have pos: "(0::rat) < of_int k" by simp
  from assms(2) have "(of_int k :: rat) < of_int (2 ^ 53)" by (simp only: of_int_less_iff)
  then have "(of_int k :: rat) < 2 ^ 53" by simp
  from float64_int_between [OF pos this, of k k] show ?thesis by simp
qed

lemma float64_unit:
  assumes "0 \<le> x" "x < 1"
  shows "0 \<le> float64 x \<and> float64 x \<le> 1"
proof (cases "x = 0")
  case True
  then show ?thesis by (simp add: float64_def)
next
  case False
  with assms have pos: "0 < x" by simp
  define e where "e = ilog2 x"
  from ilog2_bounds [OF pos] have lo: "pow2 e \<le> x" and hi: "x < pow2 (e + 1)"
    by (simp_all add: e_def)
  from lo assms(2) have "pow2 e < pow2 0" by (simp add: pow2_numeral)
  then have e: "e < 0" by (rule pow2_less_cancel)
  have g1: "pow2 e = pow2 52 * pow2 (e - 52)"
    using pow2_add [of 52 "e - 52"] by simp
  have g2: "pow2 (e + 1) = pow2 53 * pow2 (e - 52)"
  proof -
    have "pow2 (53 + (e - 52)) = pow2 53 * pow2 (e - 52)" by (rule pow2_add)
    moreover have "53 + (e - 52) = e + 1" by simp
    ultimately show ?thesis by (simp only:)
  qed
  have a: "of_int (2 ^ 52) * pow2 (e - 52) \<le> x"
    using lo g1 by (simp add: pow2_numeral)
  have b: "x \<le> of_int (2 ^ 53) * pow2 (e - 52)"
    using hi g2 by (simp add: pow2_numeral)
  from float64_between [OF pos lo hi a b]
  have "pow2 e \<le> float64 x" and up: "float64 x \<le> pow2 (e + 1)"
    using g1 g2 by (simp_all add: pow2_numeral)
  with pow2_pos [of e] have "0 \<le> float64 x" by simp
  moreover have "pow2 (e + 1) \<le> 1"
  proof (cases "e + 1 = 0")
    case True
    then show ?thesis by (simp add: pow2_numeral)
  next
    case False
    with e have "e + 1 < 0" by simp
    from pow2_strict_mono [OF this] show ?thesis by (simp add: pow2_numeral)
  qed
  ultimately show ?thesis using up by simp
qed

text \<open>
  The seconds of a duration that is not negative, as a float64 and converted to an
  integer: the whole seconds, or one more.
\<close>

lemma Duration_Seconds_bounds:
  assumes "0 \<le> d" "d < 2 ^ 63"
  shows "of_int (d div 1000000000) \<le> Duration_Seconds d
     \<and> Duration_Seconds d \<le> of_int (d div 1000000000 + 1)"
proof -
  define sec nsec where "sec = d div 1000000000" and "nsec = d mod 1000000000"
  from seconds_small [OF assms] have sec: "0 \<le> sec" "sec < 2 ^ 52"
    and nsec: "0 \<le> nsec" "nsec < 1000000000" "nsec < 2 ^ 53"
    by (simp_all only: sec_def nsec_def)
  from sec(2) have sec53: "sec < 2 ^ 53" by simp
  define q where "q = float64 (of_int nsec / 1000000000)"
  have "0 \<le> (of_int nsec :: rat) / 1000000000" "(of_int nsec :: rat) / 1000000000 < 1"
    using nsec by simp_all
  from float64_unit [OF this] have q: "0 \<le> q" "q \<le> 1" by (simp_all add: q_def)
  have ds: "Duration_Seconds d = float64 (of_int sec + q)"
    using assms(1) float64_of_int [OF sec(1) sec53] float64_of_int [OF nsec(1,3)]
    by (simp add: Duration_Seconds_def sdiv_smod_nonneg sec_def nsec_def q_def Let_def)
  have S: "(0::rat) \<le> of_int sec" using sec(1) by simp
  show ?thesis
  proof (cases "of_int sec + q = 0")
    case True
    with S q(1) have "(of_int sec :: rat) = 0" by linarith
    then have "sec = 0" by simp
    with True ds show ?thesis by (simp add: float64_def sec_def)
  next
    case False
    with S q(1) have pos: "0 < of_int sec + q" by linarith
    have hi: "of_int sec + q \<le> of_int (sec + 1)" using q by simp
    have "(of_int (sec + 1) :: rat) < 2 ^ 53"
    proof -
      from sec(2) have "sec + 1 < 2 ^ 53" by simp
      then have "(of_int (sec + 1) :: rat) < of_int (2 ^ 53)" by (simp only: of_int_less_iff)
      then show ?thesis by simp
    qed
    with hi have small: "of_int sec + q < 2 ^ 53" by linarith
    have lo: "of_int sec \<le> of_int sec + q" using q by simp
    from float64_int_between [OF pos small lo hi] ds show ?thesis
      by (simp add: sec_def)
  qed
qed

lemma max_age_bounds:
  assumes "0 \<le> d" "d < 2 ^ 63"
  shows "0 \<le> int_of_float64 (Duration_Seconds d)
     \<and> d div 1000000000 \<le> int_of_float64 (Duration_Seconds d)
     \<and> int_of_float64 (Duration_Seconds d) \<le> d div 1000000000 + 1"
proof -
  from Duration_Seconds_bounds [OF assms] have
    lo: "of_int (d div 1000000000) \<le> Duration_Seconds d"
    and hi: "Duration_Seconds d \<le> of_int (d div 1000000000 + 1)"
    by simp_all
  from seconds_small(1) [OF assms] have s: "0 \<le> d div 1000000000" .
  then have "(0::rat) \<le> of_int (d div 1000000000)" by simp
  with lo have nn: "0 \<le> Duration_Seconds d" by linarith
  from lo have l: "d div 1000000000 \<le> \<lfloor>Duration_Seconds d\<rfloor>" by (simp add: le_floor_iff)
  from hi have "\<lfloor>Duration_Seconds d\<rfloor> \<le> \<lfloor>of_int (d div 1000000000 + 1) :: rat\<rfloor>"
    by (rule floor_mono)
  then have h: "\<lfloor>Duration_Seconds d\<rfloor> \<le> d div 1000000000 + 1" by (simp only: floor_of_int)
  from l h s nn show ?thesis by (simp add: int_of_float64_def)
qed

text \<open>The same seconds on the integers \<open>d\<close> of the sample values.\<close>

lemma float64_at:
  assumes "0 < x" "pow2 e \<le> x" "x < pow2 (e + 1)" "m = round_even (x * pow2 (52 - e))"
  shows "float64 x = of_int m * pow2 (e - 52)"
  using float64_pos [OF assms(1-3)] assms(4) by simp

lemma round_even_frac:
  assumes "0 < q"
  shows "round_even (of_int p / of_int q) =
     (if 2 * (p mod q) < q then p div q
      else if q < 2 * (p mod q) then p div q + 1
      else if even (p div q) then p div q else p div q + 1)"
proof -
  have fl: "\<lfloor>(of_int p :: rat) / of_int q\<rfloor> = p div q"
    by (simp add: floor_divide_of_int_eq)
  have Q: "(0::rat) < of_int q" using assms by simp
  have "(of_int p :: rat) = of_int (p div q) * of_int q + of_int (p mod q)"
    by (metis of_int_add of_int_mult div_mult_mod_eq)
  from arg_cong [OF this, of "\<lambda>x. x / of_int q"]
  have "(of_int p :: rat) / of_int q = of_int (p div q) + of_int (p mod q) / of_int q"
    using Q by (simp add: add_divide_distrib)
  then have r: "(of_int p :: rat) / of_int q - of_int (p div q) = of_int (p mod q) / of_int q"
    by simp
  have lt: "(of_int (p mod q) / of_int q < (1::rat) / 2) = (2 * (p mod q) < q)"
  proof -
    have "(of_int (p mod q) / of_int q < (1::rat) / 2) = ((of_int (2 * (p mod q)) :: rat) < of_int q)"
      using Q by (simp add: field_simps)
    then show ?thesis by (simp only: of_int_less_iff)
  qed
  have gt: "((1::rat) / 2 < of_int (p mod q) / of_int q) = (q < 2 * (p mod q))"
  proof -
    have "((1::rat) / 2 < of_int (p mod q) / of_int q) = ((of_int q :: rat) < of_int (2 * (p mod q)))"
      using Q by (simp add: field_simps)
    then show ?thesis by (simp only: of_int_less_iff)
  qed
  show ?thesis
    unfolding round_even_def Let_def fl r lt gt by simp
qed

section \<open>The seconds left of a lifetime\<close>

lemma round_even_numeral:
  "round_even (numeral p / numeral q) =
     (if 2 * (numeral p mod numeral q) < (numeral q :: int) then numeral p div numeral q
      else if (numeral q :: int) < 2 * (numeral p mod numeral q) then numeral p div numeral q + 1
      else if even (numeral p div numeral q :: int) then numeral p div numeral q
      else numeral p div numeral q + 1)"
  using round_even_frac [of "numeral q" "numeral p"] by simp

lemma fraction_rounds:
  "float64 (999999999 / 1000000000) = of_int 9007199245733793 * pow2 (- 53)"
proof -
  have m: "9007199245733793 = round_even ((999999999 / 1000000000 :: rat) * pow2 (52 - (- 1)))"
    by (simp add: pow2_def round_even_numeral)
  have "float64 (999999999 / 1000000000) = of_int 9007199245733793 * pow2 (- 1 - 52)"
    by (rule float64_at [OF _ _ _ m]) (simp_all add: pow2_def)
  then show ?thesis by simp
qed

lemma sum_rounds_up:
  "float64 (16777216 + of_int 9007199245733793 * pow2 (- 53)) = 16777217"
proof -
  let ?x = "16777216 + of_int 9007199245733793 * pow2 (- 53) :: rat"
  have m: "4503599895805952 = round_even (?x * pow2 (52 - 24))"
    by (simp add: pow2_def round_even_numeral)
  have "float64 ?x = of_int 4503599895805952 * pow2 (24 - 52)"
    by (rule float64_at [OF _ _ _ m]) (simp_all add: pow2_def)
  then show ?thesis by (simp add: pow2_def)
qed

lemma Duration_Seconds_rounds_up: "Duration_Seconds 16777216999999999 = 16777217"
proof -
  have sec: "(16777216999999999 :: int) sdiv 1000000000 = 16777216"
    and nsec: "(16777216999999999 :: int) smod 1000000000 = 999999999"
    by (simp_all add: sdiv_smod_nonneg)
  have f1: "float64 (of_int 16777216) = of_int 16777216"
    and f2: "float64 (of_int 999999999) = of_int 999999999"
    by (rule float64_of_int; simp)+
  show ?thesis
    unfolding Duration_Seconds_def sec nsec Let_def f1 f2
    using fraction_rounds sum_rounds_up by simp
qed

lemma fmt_nat_small: "2 \<le> b \<Longrightarrow> n < b \<Longrightarrow> fmt_nat b n = [digit n]"
  by (subst fmt_nat.simps) simp

lemma fmt_nat_step: "2 \<le> b \<Longrightarrow> b \<le> n \<Longrightarrow> fmt_nat b n = fmt_nat b (n div b) @ [digit (n mod b)]"
  by (subst fmt_nat.simps) simp

lemma fmt_d_16777217: "fmt_d 16777217 = ''16777217''"
  by (simp add: fmt_d_def fmt_nat_step fmt_nat_small digit_def)

lemma fmt_d_0: "fmt_d 0 = ''0''"
  by (simp add: fmt_d_def fmt_nat_small digit_def)

text \<open>
  C6. The specification has the \<open>max-age\<close> of an entry with a lifetime equal to the
  whole number of seconds left until expiry. The code departs from it at this input: an
  entry that expires 16777216.999999999 seconds after the lookup has 16777216 whole
  seconds left, and the \<open>Cache-Control\<close> header says \<open>max-age=16777217\<close>. \<open>Duration.Seconds\<close> is a float64, the sum of the seconds
  and the rounded fraction is rounded again, and from \<open>2 ^ 24\<close> seconds on a fraction of
  \<open>0.999999999\<close> rounds up to the next whole second before \<open>int\<close> drops the fraction.
\<close>

theorem max_age_exceeds_remaining_whole_seconds:
  "cache_control 0 (sample_entry\<lparr>Lifetime := Some 16777216999999999\<rparr>)
     = Some ''public, must-revalidate, max-age=16777217''
   \<and> time_Sub 16777216999999999 0 div 1000000000 = 16777216"
proof -
  have d: "time_Sub 16777216999999999 0 = 16777216999999999"
    by (simp add: time_Sub_def)
  have "int_of_float64 (Duration_Seconds 16777216999999999) = 16777217"
    by (simp add: Duration_Seconds_rounds_up int_of_float64_def)
  then show ?thesis
    by (simp add: cache_control_def sample_entry_def time_Before_def d fmt_d_16777217)
qed

section \<open>Expiry\<close>

lemma cache_control_expiry:
  assumes "Lifetime e = Some l"
  shows "(cache_control now e = None) = (l < now)"
  using assms by (simp add: cache_control_def time_Before_def)

text \<open>
  C2, as the code has it. For an entry with the lifetime \<open>l\<close>, found under a
  top-level path: a lookup at an instant up to and including \<open>l\<close> passes the check of
  the lifetime and, when the blob opens and its type is detected, returns the entry's
  file; a lookup at an instant after \<open>l\<close> returns \<open>os.ErrNotExist\<close> and sets no header,
  which is also what the lookup returns when the slug is absent from the store.
\<close>

theorem entry_is_served_until_its_lifetime_has_passed:
  assumes "path_Split path = (''/'', name)"
    and "Database_Lookup_err env = None"
    and "db (takeWhile (\<lambda>c. c \<noteq> CHR ''.'') name) = Some e"
    and "Lifetime e = Some l"
  shows "(serve_Now env \<le> l \<longrightarrow>
           (\<forall>f ctype f'. FileSystem_Open env (Slug e) = Inr f
              \<longrightarrow> detectContentType L (Name e) f = (Inr ctype, f')
              \<longrightarrow> snd (Open_entry L env db path) = Ok (EntryFile f' e)))
       \<and> (l < serve_Now env \<longrightarrow>
            Open_entry L env db path = ([], Err ErrNotExist)
            \<and> Open_entry L env (db(takeWhile (\<lambda>c. c \<noteq> CHR ''.'') name := None)) path
                = ([], Err ErrNotExist))"
proof (intro conjI impI allI)
  fix f ctype f'
  assume "serve_Now env \<le> l" and f: "FileSystem_Open env (Slug e) = Inr f"
    and ct: "detectContentType L (Name e) f = (Inr ctype, f')"
  with cache_control_expiry [OF assms(4), of "serve_Now env"]
  obtain cache where "cache_control (serve_Now env) e = Some cache"
    by (cases "cache_control (serve_Now env) e") auto
  with f ct show "snd (Open_entry L env db path) = Ok (EntryFile f' e)"
    by (simp add: Open_entry_found [where db = db and e = e, OF assms(1-3)])
next
  assume "l < serve_Now env"
  with cache_control_expiry [OF assms(4), of "serve_Now env"]
  have "cache_control (serve_Now env) e = None" by simp
  then show "Open_entry L env db path = ([], Err ErrNotExist)"
    by (simp add: Open_entry_found [where db = db and e = e, OF assms(1-3)])
next
  show "Open_entry L env (db(takeWhile (\<lambda>c. c \<noteq> CHR ''.'') name := None)) path
          = ([], Err ErrNotExist)"
    using assms(1,2) by (simp add: Open_entry_def Database_Lookup_def)
qed

lemma Duration_Seconds_0: "Duration_Seconds 0 = 0"
  by (simp add: Duration_Seconds_def float64_def signed_divide_int_def signed_modulo_int_def)

lemma sample_serve_at_expiry:
  "Open_entry sample_lib (sample_serve_env 3600000005000 [0x25, 0x50, 0x44, 0x46])
       [''AQIDBAUGBwgJ'' \<mapsto> sample_entry] ''/AQIDBAUGBwgJ.pdf'' =
     ([Header_Set ''Cache-Control'' ''public, must-revalidate, max-age=0'',
       Header_Set ''Content-Disposition''
         (''filename='' @ [CHR 0x22] @ ''report.final.pdf'' @ [CHR 0x22] @ ''; filename*=UTF-8''
            @ [CHR 0x27, CHR 0x27] @ ''report.final.pdf''),
       Header_Set ''Content-Type'' ''application/pdf'',
       Header_Set ''Etag'' ([CHR 0x22] @ ''RkRQJQ'' @ [CHR 0x22]),
       Header_Set ''Expires'' (fmt_d 3600000005000),
       Header_Set ''X-Content-Type-Options'' ''nosniff''],
      Ok (EntryFile
            \<lparr>data = [0x25, 0x50, 0x44, 0x46], offset = 0, read_fault = None, Seek_err = None, nread = 4\<rparr>
            sample_entry))"
proof -
  let ?env = "sample_serve_env 3600000005000 [0x25, 0x50, 0x44, 0x46]"
  have env: "Database_Lookup_err ?env = None" "serve_Now ?env = 3600000005000"
    "\<And>s. FileSystem_Open ?env s = Inr (sample_blob [0x25, 0x50, 0x44, 0x46])"
    by (simp_all add: sample_serve_env_def)
  have db: "[''AQIDBAUGBwgJ'' \<mapsto> sample_entry] (takeWhile (\<lambda>c. c \<noteq> CHR ''.'') ''AQIDBAUGBwgJ.pdf'')
              = Some sample_entry"
    by simp
  have e: "Name sample_entry = ''report.final.pdf''" "Sum sample_entry = ''RkRQJQ''"
    "Lifetime sample_entry = Some 3600000005000" "Slug sample_entry = ''AQIDBAUGBwgJ''"
    by (simp_all add: sample_entry_def)
  have cc: "cache_control 3600000005000 sample_entry = Some ''public, must-revalidate, max-age=0''"
    by (simp add: cache_control_def e time_Before_def time_Sub_def Duration_Seconds_0
        int_of_float64_def fmt_d_0)
  have html: "html_to_plain ''application/pdf'' = ''application/pdf''"
    by (simp add: html_to_plain_def strings_HasPrefix_def)
  show ?thesis
    unfolding Open_entry_found [where db = "[''AQIDBAUGBwgJ'' \<mapsto> sample_entry]" and e = sample_entry,
        OF sample_path env(1) db] env cc e sample_lib_fields
    by (simp add: html sample_detect_pdf)
qed

text \<open>
  C2 as the specification states it fails at the instant of expiry itself: the lookup at
  \<open>now = Lifetime\<close> is served, with \<open>max-age=0\<close>, where a slug that never existed
  gives \<open>os.ErrNotExist\<close>. The check is \<open>e.Lifetime.Before(now)\<close>.
\<close>

theorem lookup_at_the_expiry_instant_is_served:
  "Lifetime sample_entry = Some 3600000005000
   \<and> serve_Now (sample_serve_env 3600000005000 [0x25, 0x50, 0x44, 0x46]) \<ge> 3600000005000
   \<and> snd (Open_entry sample_lib (sample_serve_env 3600000005000 [0x25, 0x50, 0x44, 0x46])
            [''AQIDBAUGBwgJ'' \<mapsto> sample_entry] ''/AQIDBAUGBwgJ.pdf'')
       = Ok (EntryFile
              \<lparr>data = [0x25, 0x50, 0x44, 0x46], offset = 0, read_fault = None, Seek_err = None,
                 nread = 4\<rparr>
              sample_entry)
   \<and> Open_entry sample_lib (sample_serve_env 3600000005000 [0x25, 0x50, 0x44, 0x46])
            Map.empty ''/AQIDBAUGBwgJ.pdf''
       = ([], Err ErrNotExist)"
  by (simp add: sample_serve_at_expiry)
     (simp add: sample_entry_def sample_serve_env_def Open_entry_def sample_path
        Database_Lookup_def)

theorem entry_is_served_until_its_lifetime_has_passed_witness:
  "path_Split ''/AQIDBAUGBwgJ.pdf'' = (''/'', ''AQIDBAUGBwgJ.pdf'')
   \<and> Lifetime sample_entry = Some 3600000005000
   \<and> serve_Now (sample_serve_env 3600000004999 [0x25, 0x50, 0x44, 0x46]) \<le> 3600000005000
   \<and> snd (Open_entry sample_lib (sample_serve_env 3600000004999 [0x25, 0x50, 0x44, 0x46])
            [''AQIDBAUGBwgJ'' \<mapsto> sample_entry] ''/AQIDBAUGBwgJ.pdf'')
       = Ok (EntryFile
              \<lparr>data = [0x25, 0x50, 0x44, 0x46], offset = 0, read_fault = None, Seek_err = None,
                 nread = 4\<rparr>
              sample_entry)
   \<and> 3600000005000 < serve_Now (sample_serve_env 3600000005001 [0x25, 0x50, 0x44, 0x46])
   \<and> Open_entry sample_lib (sample_serve_env 3600000005001 [0x25, 0x50, 0x44, 0x46])
         [''AQIDBAUGBwgJ'' \<mapsto> sample_entry] ''/AQIDBAUGBwgJ.pdf''
       = ([], Err ErrNotExist)
   \<and> Open_entry sample_lib (sample_serve_env 3600000005001 [0x25, 0x50, 0x44, 0x46])
         ([''AQIDBAUGBwgJ'' \<mapsto> sample_entry](''AQIDBAUGBwgJ'' := None)) ''/AQIDBAUGBwgJ.pdf''
       = ([], Err ErrNotExist)"
proof -
  let ?db = "[''AQIDBAUGBwgJ'' \<mapsto> sample_entry]"
  let ?bs = "[0x25, 0x50, 0x44, 0x46] :: byte list"
  have env: "\<And>now. Database_Lookup_err (sample_serve_env now ?bs) = None"
    "\<And>now. serve_Now (sample_serve_env now ?bs) = now"
    "\<And>now s. FileSystem_Open (sample_serve_env now ?bs) s = Inr (sample_blob ?bs)"
    by (simp_all add: sample_serve_env_def)
  have db: "?db (takeWhile (\<lambda>c. c \<noteq> CHR ''.'') ''AQIDBAUGBwgJ.pdf'') = Some sample_entry"
    by simp
  have key: "takeWhile (\<lambda>c. c \<noteq> CHR ''.'') ''AQIDBAUGBwgJ.pdf'' = ''AQIDBAUGBwgJ''"
    by simp
  have e: "Lifetime sample_entry = Some 3600000005000" "Name sample_entry = ''report.final.pdf''"
    by (simp_all add: sample_entry_def)
  note before = entry_is_served_until_its_lifetime_has_passed
    [where db = ?db and e = sample_entry and L = sample_lib
       and env = "sample_serve_env 3600000004999 ?bs",
     OF sample_path env(1) db e(1)]
  note after = entry_is_served_until_its_lifetime_has_passed
    [where db = ?db and e = sample_entry and L = sample_lib
       and env = "sample_serve_env 3600000005001 ?bs",
     OF sample_path env(1) db e(1)]
  from before have served:
    "snd (Open_entry sample_lib (sample_serve_env 3600000004999 ?bs) ?db ''/AQIDBAUGBwgJ.pdf'')
       = Ok (EntryFile
              \<lparr>data = ?bs, offset = 0, read_fault = None, Seek_err = None, nread = 4\<rparr>
              sample_entry)"
    using sample_detect_pdf by (simp add: env e)
  from after have gone:
    "Open_entry sample_lib (sample_serve_env 3600000005001 ?bs) ?db ''/AQIDBAUGBwgJ.pdf''
       = ([], Err ErrNotExist)"
    "Open_entry sample_lib (sample_serve_env 3600000005001 ?bs)
         (?db(''AQIDBAUGBwgJ'' := None)) ''/AQIDBAUGBwgJ.pdf''
       = ([], Err ErrNotExist)"
    unfolding key by (simp_all add: env)
  from served gone show ?thesis
    by (simp add: sample_path e env)
qed

section \<open>A body beyond the limit\<close>

lemma NextPart_loop_same_part:
  "NextPart_loop b1 d pos ps = Inr x \<Longrightarrow> NextPart_loop b2 d pos ps = Inr y \<Longrightarrow> x = y"
proof (induction ps arbitrary: pos)
  case Nil
  then show ?case by (simp split: if_splits)
next
  case (Cons p ps)
  show ?case
  proof (cases "FormName p = ''file''")
    case True
    with Cons.prems show ?thesis by (auto simp: Let_def split: if_splits)
  next
    case False
    with Cons.prems have
      "NextPart_loop b1 d (pos + d + header_len p + length (content p)) ps = Inr x"
      "NextPart_loop b2 d (pos + d + header_len p + length (content p)) ps = Inr y"
      by (auto simp: Let_def split: if_splits)
    then show ?thesis by (rule Cons.IH)
  qed
qed

lemma http_MaxBytesReader_bound: "fst (http_MaxBytesReader n body) \<le> nat n"
  by (cases body) (auto simp: http_MaxBytesReader_def)

lemma Part_Read_cut:
  assumes "fst body < start + length (content p) + d"
  shows "\<exists>chunks e. Part_Read body d start p = (chunks, Some e)"
  using assms by (cases body) (auto simp: Part_Read_def)

lemma UploadHandler_pipe_source_error:
  "\<exists>w' e. UploadHandler_pipe L s env db slug name (chunks, Some err) w = (w', db, Some e)"
proof -
  obtain w' h' n res where cp: "io_Copy (w, blake3_New) chunks (Some err) 0 = ((w', h'), n, res)"
    by (metis prod.exhaust)
  from io_Copy_source_error [OF cp] obtain e where "res = Some e" by auto
  with cp show ?thesis
    using UploadHandler_pipe_copy_failed [of w "(chunks, Some err)" "(w', h')" n e L s env db slug name]
    by auto
qed

text \<open>The file part lies within the body it was found in.\<close>

lemma NextPart_loop_layout:
  "NextPart_loop body d pos ps = Inr (p, start) \<Longrightarrow>
     start + length (content p) + d
       \<le> pos + (\<Sum>p\<leftarrow>ps. d + header_len p + length (content p)) + d"
proof (induction ps arbitrary: pos)
  case Nil
  then show ?case by (simp split: if_splits)
next
  case (Cons q ps)
  show ?case
  proof (cases "FormName q = ''file''")
    case True
    with Cons.prems show ?thesis by (auto simp: Let_def split: if_splits)
  next
    case False
    with Cons.prems have
      "NextPart_loop body d (pos + d + header_len q + length (content q)) ps = Inr (p, start)"
      by (auto simp: Let_def split: if_splits)
    from Cons.IH [OF this] show ?thesis by simp
  qed
qed

lemma file_part_within_body:
  "NextPart_loop body (delim_len r) 0 (parts r) = Inr (p, start) \<Longrightarrow>
     start + length (content p) + delim_len r \<le> body_len r"
  using NextPart_loop_layout [of body "delim_len r" 0 "parts r" p start]
  by (simp add: body_len_def)

text \<open>
  C3, as the code has it. A request that declares more bytes than the limit is answered
  with 413 before anything is read, and the metadata store stays as it was. A request
  whose file part, with the delimiter that ends it, does not lie within the first
  \<open>Limit\<close> bytes of the body (so that the body holds more bytes than the limit) is
  answered with one \<open>http.Error\<close>, and the metadata store stays as it was.
\<close>

theorem oversized_upload_creates_no_entry:
  "(ContentLength r > srv_Limit s \<longrightarrow>
      UploadHandler L s env db r =
        \<lparr>calls = [http_Error (Lit ''Request Entity Too Large'') 413], db_after = db, pipe = None\<rparr>)
   \<and> (NextPart_loop (Body r) (delim_len r) 0 (parts r) = Inr (p, start)
        \<and> nat (srv_Limit s) < start + length (content p) + delim_len r \<longrightarrow>
      int (body_len r) > srv_Limit s
      \<and> (\<exists>m c. calls (UploadHandler L s env db r) = [http_Error m c])
      \<and> db_after (UploadHandler L s env db r) = db)"
proof (intro conjI impI)
  assume "ContentLength r > srv_Limit s"
  then show "UploadHandler L s env db r =
        \<lparr>calls = [http_Error (Lit ''Request Entity Too Large'') 413], db_after = db, pipe = None\<rparr>"
    by (simp add: UploadHandler_def)
next
  assume a: "NextPart_loop (Body r) (delim_len r) 0 (parts r) = Inr (p, start)
        \<and> nat (srv_Limit s) < start + length (content p) + delim_len r"
  from a file_part_within_body [of "Body r" r p start]
  show "int (body_len r) > srv_Limit s" by linarith
next
  assume a: "NextPart_loop (Body r) (delim_len r) 0 (parts r) = Inr (p, start)
        \<and> nat (srv_Limit s) < start + length (content p) + delim_len r"
  let ?B = "http_MaxBytesReader (srv_Limit s) (Body r)"
  have "(\<exists>m c. calls (UploadHandler L s env db r) = [http_Error m c])
      \<and> db_after (UploadHandler L s env db r) = db"
  proof (cases rule: UploadHandler_cases [where L = L and s = s and env = env and db = db and r = r])
    case (rejected m c)
    then show ?thesis by simp
  next
    case (stored p' start' b w db' res)
    from a have "NextPart_loop (Body r) (delim_len r) 0 (parts r) = Inr (p, start)" by simp
    from NextPart_loop_same_part [OF stored(3) this] have same: "p' = p" "start' = start"
      by simp_all
    from http_MaxBytesReader_bound [of "srv_Limit s" "Body r"] a
    have "fst ?B < start + length (content p) + delim_len r" by simp
    from Part_Read_cut [OF this] obtain chunks e where
      "Part_Read ?B (delim_len r) start p = (chunks, Some e)" by blast
    with UploadHandler_pipe_source_error
      [of L s env db "EncodeToString b" "FileName p" chunks e "\<lparr>written = [], sink_fault = pipe_fault env\<rparr>"]
      stored(6) same
    obtain e' where "db' = db" "res = Some e'"
      by (auto simp: FileSystem_Create_def)
    with stored(7) show ?thesis by simp
  qed
  then show "\<exists>m c. calls (UploadHandler L s env db r) = [http_Error m c]"
    and "db_after (UploadHandler L s env db r) = db"
    by simp_all
qed

lemma sample_upload_cut:
  "UploadHandler sample_lib (sample_server\<lparr>srv_Limit := 122\<rparr>) sample_env Map.empty
       (sample_request\<lparr>ContentLength := - 1\<rparr>) =
     \<lparr>calls = [http_Error (ErrorOf (Wrapf ''copy'' ErrBodyTooLarge)) 500],
      db_after = Map.empty,
      pipe = Some \<lparr>written = [0x25, 0x50], sink_fault = None\<rparr>\<rparr>"
  by (simp add: UploadHandler_def sample_lib_def sample_server_def sample_env_def
      sample_request_def sample_part_def body_len_def Body_def http_MaxBytesReader_def
      io_ReadFull_def Part_Read_def chop_short FileSystem_Create_def UploadHandler_pipe_def
      blake3_New_def MultiWriter_Write_def sink_Write_def hasher_Write_def hasher_Sum_def
      Database_Create_def filepath_Ext_def enc_def encodeURL_def Let_def)

lemma sample_upload_long_epilogue:
  "UploadHandler sample_lib sample_server sample_env Map.empty
       (sample_request\<lparr>ContentLength := - 1, epilogue_len := 1000\<rparr>) =
     \<lparr>calls = [http_Redirect ''/AQIDBAUGBwgJ.pdf'' 303, io_WriteString (''/AQIDBAUGBwgJ.pdf'' @ [CHR 0x0A])],
      db_after = [''AQIDBAUGBwgJ'' \<mapsto>
         \<lparr>Slug = ''AQIDBAUGBwgJ'', Name = ''report.final.pdf'', Sum = ''RkRQJQ'', Size = 4,
          Timestamp = 5000, Lifetime = Some 3600000005000\<rparr>],
      pipe = Some \<lparr>written = [0x25, 0x50, 0x44, 0x46], sink_fault = None\<rparr>\<rparr>"
  by (simp add: UploadHandler_def sample_lib_def sample_server_def sample_env_def
      sample_request_def sample_part_def body_len_def Body_def http_MaxBytesReader_def
      io_ReadFull_def Part_Read_def chop_short FileSystem_Create_def UploadHandler_pipe_def
      blake3_New_def MultiWriter_Write_def sink_Write_def hasher_Write_def hasher_Sum_def
      Database_Create_def filepath_Ext_def enc_def encodeURL_def Let_def)

text \<open>
  C3 as the specification states it fails on bodies that hold more bytes than the limit without
  declaring it (a declared length of \<open>-1\<close> is none). When the limit of 122 bytes falls
  into the content of the file part of a body of 168 bytes, the copy fails and the answer
  is 500, not 413. When a body of 1164 bytes exceeds the limit of 1000 bytes only behind
  the file part, the bytes beyond the limit are never read: the answer is the redirect
  and the entry is created.
\<close>

theorem oversized_body_without_413:
  "srv_Limit (sample_server\<lparr>srv_Limit := 122\<rparr>)
      < int (body_len (sample_request\<lparr>ContentLength := - 1\<rparr>))
   \<and> calls (UploadHandler sample_lib (sample_server\<lparr>srv_Limit := 122\<rparr>) sample_env Map.empty
        (sample_request\<lparr>ContentLength := - 1\<rparr>))
       = [http_Error (ErrorOf (Wrapf ''copy'' ErrBodyTooLarge)) 500]
   \<and> srv_Limit sample_server
      < int (body_len (sample_request\<lparr>ContentLength := - 1, epilogue_len := 1000\<rparr>))
   \<and> calls (UploadHandler sample_lib sample_server sample_env Map.empty
        (sample_request\<lparr>ContentLength := - 1, epilogue_len := 1000\<rparr>))
       = [http_Redirect ''/AQIDBAUGBwgJ.pdf'' 303, io_WriteString (''/AQIDBAUGBwgJ.pdf'' @ [CHR 0x0A])]
   \<and> db_after (UploadHandler sample_lib sample_server sample_env Map.empty
        (sample_request\<lparr>ContentLength := - 1, epilogue_len := 1000\<rparr>)) ''AQIDBAUGBwgJ''
       = Some \<lparr>Slug = ''AQIDBAUGBwgJ'', Name = ''report.final.pdf'', Sum = ''RkRQJQ'', Size = 4,
               Timestamp = 5000, Lifetime = Some 3600000005000\<rparr>"
  unfolding sample_upload_cut sample_upload_long_epilogue
  by (simp add: sample_server_def sample_request_def sample_part_def body_len_def)

theorem oversized_upload_creates_no_entry_witness:
  "ContentLength (sample_request\<lparr>ContentLength := 2000\<rparr>) > srv_Limit sample_server
   \<and> UploadHandler sample_lib sample_server sample_env Map.empty
        (sample_request\<lparr>ContentLength := 2000\<rparr>) =
        \<lparr>calls = [http_Error (Lit ''Request Entity Too Large'') 413], db_after = Map.empty, pipe = None\<rparr>
   \<and> NextPart_loop (Body (sample_request\<lparr>ContentLength := - 1\<rparr>))
        (delim_len (sample_request\<lparr>ContentLength := - 1\<rparr>)) 0
        (parts (sample_request\<lparr>ContentLength := - 1\<rparr>)) = Inr (sample_part, 120)
   \<and> nat (srv_Limit (sample_server\<lparr>srv_Limit := 122\<rparr>))
        < 120 + length (content sample_part) + delim_len (sample_request\<lparr>ContentLength := - 1\<rparr>)
   \<and> (\<exists>m c. calls (UploadHandler sample_lib (sample_server\<lparr>srv_Limit := 122\<rparr>) sample_env Map.empty
                  (sample_request\<lparr>ContentLength := - 1\<rparr>)) = [http_Error m c])
   \<and> db_after (UploadHandler sample_lib (sample_server\<lparr>srv_Limit := 122\<rparr>) sample_env Map.empty
        (sample_request\<lparr>ContentLength := - 1\<rparr>)) = Map.empty"
proof -
  have big: "ContentLength (sample_request\<lparr>ContentLength := 2000\<rparr>) > srv_Limit sample_server"
    by (simp add: sample_server_def)
  have found: "NextPart_loop (Body (sample_request\<lparr>ContentLength := - 1\<rparr>))
        (delim_len (sample_request\<lparr>ContentLength := - 1\<rparr>)) 0
        (parts (sample_request\<lparr>ContentLength := - 1\<rparr>)) = Inr (sample_part, 120)"
    by (simp add: sample_request_def sample_part_def Body_def body_len_def)
  have cut: "nat (srv_Limit (sample_server\<lparr>srv_Limit := 122\<rparr>))
        < 120 + length (content sample_part) + delim_len (sample_request\<lparr>ContentLength := - 1\<rparr>)"
    by (simp add: sample_request_def sample_part_def)
  note declared = oversized_upload_creates_no_entry
    [where r = "sample_request\<lparr>ContentLength := 2000\<rparr>" and s = sample_server
       and L = sample_lib and env = sample_env and db = Map.empty,
     THEN conjunct1]
  note actual = oversized_upload_creates_no_entry
    [where r = "sample_request\<lparr>ContentLength := - 1\<rparr>"
       and s = "sample_server\<lparr>srv_Limit := 122\<rparr>"
       and L = sample_lib and env = sample_env and db = Map.empty and p = sample_part
       and start = 120,
     THEN conjunct2]
  from declared big actual found cut show ?thesis
    by blast
qed

section \<open>The cache headers of a served entry\<close>

lemma Open_public_missing:
  "Dir_Open env name = IsNotExist \<Longrightarrow> Open L env db name = Open_entry L env db name"
  by (simp add: Open_def)

lemma time_Sub_range:
  assumes "\<not> time_Before l now"
  shows "0 \<le> time_Sub l now" "time_Sub l now < 2 ^ 63"
  using assms by (simp_all add: time_Sub_def time_Before_def Let_def)

text \<open>
  What does hold of the cache headers of a served entry: without a lifetime the
  directive is \<open>max-age=31536000\<close> and there is no \<open>Expires\<close>; with the lifetime \<open>l\<close>
  the directive is \<open>public, must-revalidate, max-age=n\<close>, where \<open>n\<close> is not negative
  and is the whole number of seconds left or one more, and \<open>Expires\<close> is \<open>l\<close> as
  \<open>http.TimeFormat\<close> prints it.
\<close>

lemma served_cache_headers:
  assumes "Open_entry L env db path = (hs, Ok (EntryFile f' e))"
  shows "(Lifetime e = None \<longrightarrow>
            (\<forall>v. Header_Set ''Cache-Control'' v \<in> set hs \<longleftrightarrow> v = ''max-age=31536000'')
            \<and> (\<forall>v. Header_Set ''Expires'' v \<notin> set hs))
       \<and> (\<forall>l. Lifetime e = Some l \<longrightarrow>
            (\<exists>n. (\<forall>v. Header_Set ''Cache-Control'' v \<in> set hs
                        \<longleftrightarrow> v = ''public, must-revalidate, max-age='' @ fmt_d n)
                 \<and> 0 \<le> n
                 \<and> time_Sub l (serve_Now env) div 1000000000 \<le> n
                 \<and> n \<le> time_Sub l (serve_Now env) div 1000000000 + 1)
            \<and> (\<forall>v. Header_Set ''Expires'' v \<in> set hs \<longleftrightarrow> v = Format_TimeFormat L l))"
proof -
  from assms obtain name e' cache f ctype f'' where
    "path_Split path = (''/'', name)"
    "Database_Lookup (Database_Lookup_err env) db (takeWhile (\<lambda>c. c \<noteq> CHR ''.'') name) = Inr e'"
    and cc: "cache_control (serve_Now env) e' = Some cache"
    and "FileSystem_Open env (Slug e') = Inr f"
    and "detectContentType L (Name e') f = (Inr ctype, f'')"
    and fl: "EntryFile f' e = EntryFile f'' e'"
    and hs: "hs = [Header_Set ''Cache-Control'' cache,
           Header_Set ''Content-Disposition''
             (''filename='' @ fmt_q L (url_PathEscape L (Name e')) @ ''; filename*=UTF-8''
                @ [CHR 0x27, CHR 0x27] @ url_PathEscape L (Name e')),
           Header_Set ''Content-Type'' (html_to_plain ctype),
           Header_Set ''Etag'' (strconv_Quote L (Sum e'))]
          @ (case Lifetime e' of None \<Rightarrow> [] | Some l \<Rightarrow> [Header_Set ''Expires'' (Format_TimeFormat L l)])
          @ [Header_Set ''X-Content-Type-Options'' ''nosniff'']"
    by (rule Open_entry_served)
  from fl have e: "e' = e" by simp
  have cc_only: "\<And>v. Header_Set ''Cache-Control'' v \<in> set hs \<longleftrightarrow> v = cache"
    unfolding hs by (cases "Lifetime e'") simp_all
  show ?thesis
  proof (cases "Lifetime e")
    case None
    with cc e have "cache = ''max-age=31536000''" by (simp add: cache_control_def)
    moreover from None e have "\<And>v. Header_Set ''Expires'' v \<notin> set hs"
      unfolding hs by simp
    ultimately show ?thesis using cc_only None by simp
  next
    case (Some l)
    let ?d = "time_Sub l (serve_Now env)"
    let ?n = "int_of_float64 (Duration_Seconds ?d)"
    from cc e Some have alive: "\<not> time_Before l (serve_Now env)"
      by (cases "time_Before l (serve_Now env)") (simp_all add: cache_control_def)
    with cc e Some have cache: "cache = ''public, must-revalidate, max-age='' @ fmt_d ?n"
      by (simp add: cache_control_def)
    from max_age_bounds [OF time_Sub_range [OF alive]]
    have n: "0 \<le> ?n \<and> ?d div 1000000000 \<le> ?n \<and> ?n \<le> ?d div 1000000000 + 1" .
    from Some e have x: "\<And>v. Header_Set ''Expires'' v \<in> set hs \<longleftrightarrow> v = Format_TimeFormat L l"
      unfolding hs by simp
    have "\<exists>n. (\<forall>v. Header_Set ''Cache-Control'' v \<in> set hs
                        \<longleftrightarrow> v = ''public, must-revalidate, max-age='' @ fmt_d n)
                 \<and> 0 \<le> n
                 \<and> time_Sub l (serve_Now env) div 1000000000 \<le> n
                 \<and> n \<le> time_Sub l (serve_Now env) div 1000000000 + 1"
      using n cc_only cache by (intro exI [of _ ?n]) simp
    with x Some show ?thesis by simp
  qed
qed

end
